theory Spec2Isabelle
  imports Complex_Main
begin

section \<open>The timer state machine of \<open>pomodoro_timer.py\<close>\<close>

text \<open>
  The program is one Python module: an enumeration \<open>State\<close>, the class
  \<open>PomodoroTimer\<close> (the state machine) and the class \<open>PomodoroGUI\<close> (the Tk
  front end that drives it). Python integers are unbounded, so they are \<open>int\<close>.
  A Python \<open>str\<close> is a sequence of Unicode code points, so it is a list of code
  points here: the liquid glyph of the drink display lies outside of ASCII.
  A method that assigns to a field takes the object and returns it updated;
  a method that also returns a value returns the pair of both. Everything that
  can raise returns \<open>error + 'a\<close>, with \<open>Inl\<close> for the exception.
\<close>

subsection \<open>Enumeration, exceptions, class constants\<close>

datatype State = FOCUS | SHORT_BREAK | LONG_BREAK

datatype error = KeyError | ZeroDivisionError | OverflowError

type_synonym str = "nat list"

definition codepoints :: "string \<Rightarrow> str" where
  "codepoints cs = map of_char cs"

text \<open>The \<open>value\<close> attribute of the enumeration members.\<close>

fun state_value :: "State \<Rightarrow> str" where
  "state_value FOCUS = codepoints ''Focus''"
| "state_value SHORT_BREAK = codepoints ''Short Break''"
| "state_value LONG_BREAK = codepoints ''Long Break''"

text \<open>The two class-level dictionaries, keyed by the enumeration.\<close>

definition DURATIONS :: "State \<rightharpoonup> int" where
  "DURATIONS = [FOCUS \<mapsto> 25 * 60, SHORT_BREAK \<mapsto> 5 * 60, LONG_BREAK \<mapsto> 15 * 60]"

definition COLORS :: "State \<rightharpoonup> str" where
  "COLORS = [FOCUS \<mapsto> codepoints ''#4CAF50'',
             SHORT_BREAK \<mapsto> codepoints ''#FFEB3B'',
             LONG_BREAK \<mapsto> codepoints ''#F44336'']"

text \<open>Subscription \<open>d[k]\<close> of a dictionary raises \<open>KeyError\<close> on a missing key.\<close>

definition subscript :: "('k \<rightharpoonup> 'v) \<Rightarrow> 'k \<Rightarrow> error + 'v" where
  "subscript d k = (case d k of None \<Rightarrow> Inl KeyError | Some v \<Rightarrow> Inr v)"

subsection \<open>The class \<open>PomodoroTimer\<close>\<close>

text \<open>
  \<open>timer_id\<close> holds \<open>None\<close> or the identifier that \<open>root.after\<close> returned
  (Tk names them \<open>after#n\<close>; the number stands for the name).
\<close>

record PomodoroTimer =
  current_state :: State
  time_remaining :: int
  is_running :: bool
  focus_count :: int
  timer_id :: "nat option"

definition init :: "error + PomodoroTimer" where
  "init =
     (case subscript DURATIONS FOCUS of
        Inl e \<Rightarrow> Inl e
      | Inr d \<Rightarrow> Inr \<lparr>current_state = FOCUS, time_remaining = d, is_running = False,
                      focus_count = 0, timer_id = None\<rparr>)"

definition get_next_state :: "PomodoroTimer \<Rightarrow> State \<times> PomodoroTimer" where
  "get_next_state self =
     (if current_state self = FOCUS then
        (if focus_count self \<ge> 3 then (LONG_BREAK, self) else (SHORT_BREAK, self))
      else (FOCUS, self))"

definition transition_to_next_state :: "PomodoroTimer \<Rightarrow> error + PomodoroTimer" where
  "transition_to_next_state self =
     (let self1 =
            (if current_state self = FOCUS then
               (let s = self\<lparr>focus_count := focus_count self + 1\<rparr>
                in if focus_count s \<ge> 4 then s\<lparr>focus_count := 0\<rparr> else s)
             else self);
          (next_state, self2) = get_next_state self1;
          self3 = self2\<lparr>current_state := next_state\<rparr>
      in case subscript DURATIONS (current_state self3) of
           Inl e \<Rightarrow> Inl e
         | Inr d \<Rightarrow> Inr (self3\<lparr>time_remaining := d\<rparr>))"

definition reset_to_focus :: "PomodoroTimer \<Rightarrow> error + PomodoroTimer" where
  "reset_to_focus self =
     (if current_state self = FOCUS then
        (case subscript DURATIONS FOCUS of
           Inl e \<Rightarrow> Inl e
         | Inr d \<Rightarrow> Inr (self\<lparr>time_remaining := d\<rparr>))
      else
        (let self1 = self\<lparr>current_state := FOCUS\<rparr>
         in case subscript DURATIONS FOCUS of
              Inl e \<Rightarrow> Inl e
            | Inr d \<Rightarrow> Inr (self1\<lparr>time_remaining := d\<rparr>)))"

definition tick :: "PomodoroTimer \<Rightarrow> bool \<times> PomodoroTimer" where
  "tick self =
     (if time_remaining self > 0 then
        (let self1 = self\<lparr>time_remaining := time_remaining self - 1\<rparr>
         in (time_remaining self1 = 0, self1))
      else (False, self))"

subsection \<open>Formatting the remaining time\<close>

text \<open>
  The format specification \<open>02d\<close> prints an integer in decimal, with a minus
  sign when it is negative, and pads with zeros after the sign up to two
  characters. Code point 48 is the digit zero, 45 the minus sign.
\<close>

fun decimal :: "nat \<Rightarrow> str" where
  "decimal n = (if n < 10 then [48 + n] else decimal (n div 10) @ [48 + n mod 10])"

declare decimal.simps [simp del]

definition format_02d :: "int \<Rightarrow> str" where
  "format_02d i =
     (if i < 0 then 45 # decimal (nat (- i))
      else (let ds = decimal (nat i) in replicate (2 - length ds) 48 @ ds))"

definition format_time :: "PomodoroTimer \<Rightarrow> str" where
  "format_time self =
     (let minutes = time_remaining self div 60;
          seconds = time_remaining self mod 60
      in format_02d minutes @ codepoints '':'' @ format_02d seconds)"

subsection \<open>Python floats\<close>

text \<open>
  A finite Python float is an IEEE 754 binary64 number, here the rational it
  denotes. Every arithmetic operation computes the exact result and rounds it
  to the nearest number with a 53-bit significand, ties to the even
  significand; below \<open>2 ^ -1022\<close> the spacing stays that of the smallest
  binade. A rounded result of magnitude \<open>2 ^ 1024\<close> or more does not fit.
\<close>

fun ilog2 :: "nat \<Rightarrow> nat" where
  "ilog2 n = (if n < 2 then 0 else Suc (ilog2 (n div 2)))"

declare ilog2.simps [simp del]

definition pow2 :: "int \<Rightarrow> rat" where
  "pow2 e = (if 0 \<le> e then 2 ^ nat e else 1 / 2 ^ nat (- e))"

text \<open>The binary exponent of a positive rational: the floor of its logarithm to base 2.\<close>

definition binade :: "rat \<Rightarrow> int" where
  "binade q =
     (if 1 \<le> q then int (ilog2 (nat \<lfloor>q\<rfloor>))
      else - int (Suc (ilog2 (nat (\<lceil>1 / q\<rceil> - 1)))))"

definition round_half_even :: "rat \<Rightarrow> int" where
  "round_half_even x =
     (let f = \<lfloor>x\<rfloor>; r = x - of_int f
      in if r < 1 / 2 then f
         else if 1 / 2 < r then f + 1
         else if even f then f else f + 1)"

definition round_double :: "rat \<Rightarrow> rat" where
  "round_double q =
     (if q = 0 then 0
      else (let ulp = pow2 (max (binade \<bar>q\<bar>) (- 1022) - 52)
            in of_int (round_half_even (q / ulp)) * ulp))"

datatype pyfloat = Finite rat | PosInf | NegInf

definition to_float :: "rat \<Rightarrow> pyfloat" where
  "to_float q =
     (let x = round_double q
      in if 2 ^ 1024 \<le> x then PosInf else if x \<le> - (2 ^ 1024) then NegInf else Finite x)"

text \<open>
  \<open>a / b\<close> on two integers is true division: the correctly rounded quotient.
  It raises on a zero divisor and on a quotient too large for a float.
\<close>

definition int_truediv :: "int \<Rightarrow> int \<Rightarrow> error + pyfloat" where
  "int_truediv a b =
     (if b = 0 then Inl ZeroDivisionError
      else (case to_float (of_int a / of_int b) of
              Finite x \<Rightarrow> Inr (Finite x)
            | _ \<Rightarrow> Inl OverflowError))"

text \<open>
  \<open>x * n\<close> on a float and an integer converts the integer and multiplies;
  float multiplication overflows to an infinity without raising. The integers
  multiplied in this program are small enough to convert exactly. No operand
  is a NaN here, and an infinity is only ever multiplied by a positive number.
\<close>

definition float_mul_int :: "pyfloat \<Rightarrow> int \<Rightarrow> pyfloat" where
  "float_mul_int x n =
     (case x of
        Finite q \<Rightarrow> to_float (q * of_int n)
      | PosInf \<Rightarrow> (if 0 < n then PosInf else NegInf)
      | NegInf \<Rightarrow> (if 0 < n then NegInf else PosInf))"

text \<open>\<open>int(x)\<close> truncates towards zero and raises on an infinity.\<close>

definition int_of_float :: "pyfloat \<Rightarrow> error + int" where
  "int_of_float x =
     (case x of
        Finite q \<Rightarrow> Inr (if 0 \<le> q then \<lfloor>q\<rfloor> else \<lceil>q\<rceil>)
      | _ \<Rightarrow> Inl OverflowError)"

subsection \<open>The drink display\<close>

text \<open>
  \<open>get_energy_drink_display\<close> in three parts: the fill level (the first three
  statements), the list \<open>lines\<close> as it stands before the join, and the join.
  Code point 9619 is the liquid glyph, 10 the newline.
\<close>

definition fill_level :: "PomodoroTimer \<Rightarrow> error + int" where
  "fill_level self =
     (case subscript DURATIONS (current_state self) of
        Inl e \<Rightarrow> Inl e
      | Inr total_time \<Rightarrow>
          (case int_truediv (time_remaining self) total_time of
             Inl e \<Rightarrow> Inl e
           | Inr percent_remaining \<Rightarrow> int_of_float (float_mul_int percent_remaining 10)))"

definition can_top :: str where
  "can_top = codepoints ''  ___________  ''"

definition can_pull_tab :: str where
  "can_pull_tab = codepoints '' |  _____  |  ''"

definition can_opening :: str where
  "can_opening = codepoints '' | |_____| |  ''"

definition can_neck :: str where
  "can_neck = codepoints '' |           |  ''"

definition empty_part :: str where
  "empty_part = codepoints '' |           |  ''"

definition filled_part :: str where
  "filled_part = codepoints '' | '' @ replicate 7 9619 @ codepoints '' |  ''"

definition can_bottom :: str where
  "can_bottom = codepoints '' |___________|  ''"

definition drink_lines :: "int \<Rightarrow> str list" where
  "drink_lines level =
     (let lines0 = [can_top, can_pull_tab, can_opening, can_neck];
          lines1 = fold (\<lambda>i lines.
                      if int i < 10 - level then lines @ [empty_part]
                      else lines @ [filled_part]) [0..<10] lines0
      in lines1 @ [can_bottom])"

fun join :: "str \<Rightarrow> str list \<Rightarrow> str" where
  "join sep [] = []"
| "join sep [x] = x"
| "join sep (x # y # ys) = x @ sep @ join sep (y # ys)"

definition get_energy_drink_display :: "PomodoroTimer \<Rightarrow> error + str" where
  "get_energy_drink_display self =
     (case fill_level self of
        Inl e \<Rightarrow> Inl e
      | Inr level \<Rightarrow> Inr (join [10] (drink_lines level)))"

subsection \<open>The class \<open>PomodoroGUI\<close>\<close>

text \<open>
  Of the widgets, the record keeps what the handlers configure: the background
  colour (one colour for the frames, labels and indicator canvases), the two
  label texts, for each cycle indicator whether its circle is filled, and the
  state of the three buttons that change state. \<open>after_count\<close> numbers the
  identifiers that \<open>root.after\<close> hands out. The Tk event loop itself is not
  part of the model: every handler may run at every moment. \<open>root.after_cancel\<close>
  and \<open>play_alert\<close> (a daemon thread that beeps) assign to no field.
\<close>

datatype widget_state = NORMAL | DISABLED

record PomodoroGUI =
  timer :: PomodoroTimer
  bg :: str
  state_label :: str
  drink_label :: str
  cycle_indicators :: "bool list"
  start_button :: widget_state
  pause_button :: widget_state
  stop_button :: widget_state
  after_count :: nat

definition update_display :: "PomodoroGUI \<Rightarrow> error + PomodoroGUI" where
  "update_display self =
     (case subscript COLORS (current_state (timer self)) of
        Inl e \<Rightarrow> Inl e
      | Inr bg_color \<Rightarrow>
          (case get_energy_drink_display (timer self) of
             Inl e \<Rightarrow> Inl e
           | Inr drink \<Rightarrow>
               Inr (self\<lparr>bg := bg_color,
                          state_label := state_value (current_state (timer self)),
                          drink_label := drink,
                          cycle_indicators :=
                            map (\<lambda>i. int i < focus_count (timer self))
                              [0..<length (cycle_indicators self)]\<rparr>)))"

definition create_widgets :: "PomodoroTimer \<Rightarrow> error + PomodoroGUI" where
  "create_widgets t =
     (case subscript COLORS FOCUS of
        Inl e \<Rightarrow> Inl e
      | Inr bg_color \<Rightarrow>
          (case get_energy_drink_display t of
             Inl e \<Rightarrow> Inl e
           | Inr drink \<Rightarrow>
               Inr \<lparr>timer = t, bg = bg_color,
                     state_label = state_value (current_state t),
                     drink_label = drink,
                     cycle_indicators = map (\<lambda>i. False) [0..<4],
                     start_button = NORMAL, pause_button = DISABLED,
                     stop_button = DISABLED, after_count = 0\<rparr>))"

definition gui_init :: "error + PomodoroGUI" where
  "gui_init =
     (case init of
        Inl e \<Rightarrow> Inl e
      | Inr t \<Rightarrow>
          (case create_widgets t of
             Inl e \<Rightarrow> Inl e
           | Inr self \<Rightarrow> update_display self))"

text \<open>\<open>self.timer.timer_id = self.root.after(1000, self.countdown)\<close>\<close>

definition schedule :: "PomodoroGUI \<Rightarrow> PomodoroGUI" where
  "schedule self =
     self\<lparr>timer := (timer self)\<lparr>timer_id := Some (after_count self)\<rparr>,
          after_count := Suc (after_count self)\<rparr>"

definition countdown :: "PomodoroGUI \<Rightarrow> error + PomodoroGUI" where
  "countdown self =
     (if is_running (timer self) then
        (let (timer_complete, t1) = tick (timer self)
         in case update_display (self\<lparr>timer := t1\<rparr>) of
              Inl e \<Rightarrow> Inl e
            | Inr self1 \<Rightarrow>
                (if timer_complete then
                   (case transition_to_next_state (timer self1) of
                      Inl e \<Rightarrow> Inl e
                    | Inr t2 \<Rightarrow>
                        (case update_display (self1\<lparr>timer := t2\<rparr>) of
                           Inl e \<Rightarrow> Inl e
                         | Inr self2 \<Rightarrow> Inr (schedule self2)))
                 else Inr (schedule self1)))
      else Inr self)"

definition start_timer :: "PomodoroGUI \<Rightarrow> error + PomodoroGUI" where
  "start_timer self =
     (if \<not> is_running (timer self) then
        countdown (self\<lparr>timer := (timer self)\<lparr>is_running := True\<rparr>,
                        start_button := DISABLED,
                        pause_button := NORMAL,
                        stop_button := NORMAL\<rparr>)
      else Inr self)"

definition pause_timer :: "PomodoroGUI \<Rightarrow> error + PomodoroGUI" where
  "pause_timer self =
     Inr (self\<lparr>timer := (timer self)\<lparr>is_running := False\<rparr>,
               start_button := NORMAL,
               pause_button := DISABLED\<rparr>)"

definition stop_timer :: "PomodoroGUI \<Rightarrow> error + PomodoroGUI" where
  "stop_timer self =
     (let t1 = (timer self)\<lparr>is_running := False\<rparr>
      in case subscript DURATIONS (current_state t1) of
           Inl e \<Rightarrow> Inl e
         | Inr d \<Rightarrow>
             update_display (self\<lparr>timer := t1\<lparr>time_remaining := d\<rparr>,
                                   start_button := NORMAL,
                                   pause_button := DISABLED,
                                   stop_button := DISABLED\<rparr>))"

definition reset_timer :: "PomodoroGUI \<Rightarrow> error + PomodoroGUI" where
  "reset_timer self =
     (let t1 = (timer self)\<lparr>is_running := False\<rparr>
      in case reset_to_focus t1 of
           Inl e \<Rightarrow> Inl e
         | Inr t2 \<Rightarrow>
             update_display (self\<lparr>timer := t2,
                                   start_button := NORMAL,
                                   pause_button := DISABLED,
                                   stop_button := DISABLED\<rparr>))"

subsection \<open>Reachable states\<close>

text \<open>
  The calls that change the state: the three mutating methods of the timer,
  called on the timer of the GUI, and the handlers of the GUI.
\<close>

datatype call = Tick | TransitionToNext | ResetToFocus | Stop | Start | Pause | Reset | Countdown

fun perform :: "call \<Rightarrow> PomodoroGUI \<Rightarrow> error + PomodoroGUI" where
  "perform Tick self = Inr (self\<lparr>timer := snd (tick (timer self))\<rparr>)"
| "perform TransitionToNext self =
     (case transition_to_next_state (timer self) of
        Inl e \<Rightarrow> Inl e
      | Inr t \<Rightarrow> Inr (self\<lparr>timer := t\<rparr>))"
| "perform ResetToFocus self =
     (case reset_to_focus (timer self) of
        Inl e \<Rightarrow> Inl e
      | Inr t \<Rightarrow> Inr (self\<lparr>timer := t\<rparr>))"
| "perform Stop self = stop_timer self"
| "perform Start self = start_timer self"
| "perform Pause self = pause_timer self"
| "perform Reset self = reset_timer self"
| "perform Countdown self = countdown self"

inductive reachable :: "PomodoroGUI \<Rightarrow> bool" where
  reachable_init: "gui_init = Inr g \<Longrightarrow> reachable g"
| reachable_step: "reachable g \<Longrightarrow> perform c g = Inr g' \<Longrightarrow> reachable g'"

subsection \<open>Running phases down\<close>

text \<open>
  What \<open>countdown\<close> does to the timer, call after call: \<open>tick\<close> until it
  reports that the phase has expired, then \<open>transition_to_next_state\<close>. A
  timer that never reports expiry is never left; the fuel bounds the number of
  ticks, and \<open>None\<close> says that it ran out.
\<close>

fun run_phase :: "nat \<Rightarrow> PomodoroTimer \<Rightarrow> (error + PomodoroTimer) option" where
  "run_phase 0 self = None"
| "run_phase (Suc fuel) self =
     (case tick self of
        (True, self1) \<Rightarrow> Some (transition_to_next_state self1)
      | (False, self1) \<Rightarrow> run_phase fuel self1)"

text \<open>The phase and the count seen after each of the first \<open>k\<close> transitions.\<close>

fun run_phases :: "nat \<Rightarrow> nat \<Rightarrow> PomodoroTimer \<Rightarrow> (State \<times> int) list" where
  "run_phases fuel 0 self = []"
| "run_phases fuel (Suc k) self =
     (case run_phase fuel self of
        Some (Inr self1) \<Rightarrow> (current_state self1, focus_count self1) # run_phases fuel k self1
      | _ \<Rightarrow> [])"

subsection \<open>The invariant\<close>

text \<open>
  What the proofs carry through every call: the time left lies between zero
  and the duration of the phase, the count lies between 0 and 3, and a long
  break is only ever in progress with the count at 3.
\<close>

definition timer_inv :: "PomodoroTimer \<Rightarrow> bool" where
  "timer_inv t =
     ((case DURATIONS (current_state t) of
         None \<Rightarrow> False
       | Some d \<Rightarrow> 0 \<le> time_remaining t \<and> time_remaining t \<le> d)
      \<and> 0 \<le> focus_count t \<and> focus_count t \<le> 3
      \<and> (if current_state t = LONG_BREAK then focus_count t = 3 else True))"

section \<open>Properties of the timer\<close>

subsection \<open>The dictionaries\<close>

lemma DURATIONS_simps [simp]:
  "DURATIONS FOCUS = Some 1500"
  "DURATIONS SHORT_BREAK = Some 300"
  "DURATIONS LONG_BREAK = Some 900"
  by (simp_all add: DURATIONS_def)

lemma DURATIONS_cases:
  "DURATIONS p = Some d \<Longrightarrow> d = 1500 \<or> d = 300 \<or> d = 900"
  by (cases p) simp_all

lemma subscript_DURATIONS:
  "\<exists>d. subscript DURATIONS p = Inr d \<and> DURATIONS p = Some d \<and> 0 < d \<and> d \<le> 1500"
  by (cases p) (simp_all add: subscript_def)

lemma subscript_COLORS: "\<exists>c. subscript COLORS p = Inr c"
  by (cases p) (simp_all add: subscript_def COLORS_def)

subsection \<open>The methods of the state machine\<close>

text \<open>
  C3. \<open>tick\<close> on a timer with \<open>n > 0\<close> seconds left stores \<open>n - 1\<close>, returns
  whether \<open>n - 1\<close> is zero and leaves every other field as it was; on a timer
  with no time left it returns \<open>False\<close> and leaves the whole timer as it was.
  So the time left never becomes negative.
\<close>

theorem tick_counts_down:
  "(0 < time_remaining t \<longrightarrow>
      tick t = (time_remaining t - 1 = 0, t\<lparr>time_remaining := time_remaining t - 1\<rparr>))
   \<and> (time_remaining t = 0 \<longrightarrow> tick t = (False, t))
   \<and> (0 \<le> time_remaining t \<longrightarrow> 0 \<le> time_remaining (snd (tick t)))"
  by (simp add: tick_def Let_def)

theorem tick_counts_down_witness:
  "tick \<lparr>current_state = SHORT_BREAK, time_remaining = 1, is_running = True,
          focus_count = 2, timer_id = Some 7\<rparr>
     = (True, \<lparr>current_state = SHORT_BREAK, time_remaining = 0, is_running = True,
                focus_count = 2, timer_id = Some 7\<rparr>)
   \<and> tick \<lparr>current_state = SHORT_BREAK, time_remaining = 0, is_running = True,
            focus_count = 2, timer_id = Some 7\<rparr>
     = (False, \<lparr>current_state = SHORT_BREAK, time_remaining = 0, is_running = True,
                 focus_count = 2, timer_id = Some 7\<rparr>)"
  using tick_counts_down [of "\<lparr>current_state = SHORT_BREAK, time_remaining = 1,
          is_running = True, focus_count = 2, timer_id = Some 7\<rparr>"]
        tick_counts_down [of "\<lparr>current_state = SHORT_BREAK, time_remaining = 0,
          is_running = True, focus_count = 2, timer_id = Some 7\<rparr>"]
  by simp

text \<open>
  C4. \<open>get_next_state\<close> returns the timer as it received it. From a focus
  phase it answers the long break when the count is at least 3 and the short
  break when the count is below 3; from either break it answers the focus
  phase.
\<close>

theorem get_next_state_query:
  "snd (get_next_state t) = t
   \<and> (current_state t = FOCUS \<and> 3 \<le> focus_count t \<longrightarrow> fst (get_next_state t) = LONG_BREAK)
   \<and> (current_state t = FOCUS \<and> focus_count t < 3 \<longrightarrow> fst (get_next_state t) = SHORT_BREAK)
   \<and> (current_state t = SHORT_BREAK \<or> current_state t = LONG_BREAK \<longrightarrow>
        fst (get_next_state t) = FOCUS)"
  by (auto simp add: get_next_state_def)

theorem get_next_state_query_witness:
  "get_next_state \<lparr>current_state = FOCUS, time_remaining = 12, is_running = True,
                    focus_count = 3, timer_id = None\<rparr>
     = (LONG_BREAK, \<lparr>current_state = FOCUS, time_remaining = 12, is_running = True,
                      focus_count = 3, timer_id = None\<rparr>)
   \<and> get_next_state \<lparr>current_state = FOCUS, time_remaining = 12, is_running = True,
                      focus_count = 2, timer_id = None\<rparr>
     = (SHORT_BREAK, \<lparr>current_state = FOCUS, time_remaining = 12, is_running = True,
                       focus_count = 2, timer_id = None\<rparr>)
   \<and> get_next_state \<lparr>current_state = LONG_BREAK, time_remaining = 12, is_running = True,
                      focus_count = 3, timer_id = None\<rparr>
     = (FOCUS, \<lparr>current_state = LONG_BREAK, time_remaining = 12, is_running = True,
                 focus_count = 3, timer_id = None\<rparr>)"
  using get_next_state_query [of "\<lparr>current_state = FOCUS, time_remaining = 12,
          is_running = True, focus_count = 3, timer_id = None\<rparr>"]
        get_next_state_query [of "\<lparr>current_state = FOCUS, time_remaining = 12,
          is_running = True, focus_count = 2, timer_id = None\<rparr>"]
        get_next_state_query [of "\<lparr>current_state = LONG_BREAK, time_remaining = 12,
          is_running = True, focus_count = 3, timer_id = None\<rparr>"]
  by (simp add: prod_eq_iff)

text \<open>
  C5. \<open>reset_to_focus\<close> in a focus phase sets the time left to 1500 and
  changes nothing else; in a break it sets the phase to focus and the time
  left to 1500 and leaves the count as it was.
\<close>

theorem reset_to_focus_effect:
  "(current_state t = FOCUS \<longrightarrow> reset_to_focus t = Inr (t\<lparr>time_remaining := 1500\<rparr>))
   \<and> (current_state t = SHORT_BREAK \<or> current_state t = LONG_BREAK \<longrightarrow>
        reset_to_focus t = Inr (t\<lparr>current_state := FOCUS, time_remaining := 1500\<rparr>))"
  by (auto simp add: reset_to_focus_def subscript_def)

theorem reset_to_focus_effect_witness:
  "reset_to_focus \<lparr>current_state = FOCUS, time_remaining = 800, is_running = False,
                    focus_count = 2, timer_id = None\<rparr>
     = Inr \<lparr>current_state = FOCUS, time_remaining = 1500, is_running = False,
             focus_count = 2, timer_id = None\<rparr>
   \<and> reset_to_focus \<lparr>current_state = SHORT_BREAK, time_remaining = 100, is_running = False,
                      focus_count = 2, timer_id = None\<rparr>
     = Inr \<lparr>current_state = FOCUS, time_remaining = 1500, is_running = False,
             focus_count = 2, timer_id = None\<rparr>"
  using reset_to_focus_effect [of "\<lparr>current_state = FOCUS, time_remaining = 800,
          is_running = False, focus_count = 2, timer_id = None\<rparr>"]
        reset_to_focus_effect [of "\<lparr>current_state = SHORT_BREAK, time_remaining = 100,
          is_running = False, focus_count = 2, timer_id = None\<rparr>"]
  by simp

subsection \<open>Rounding to a float\<close>

text \<open>
  \<open>binade\<close> is the floor of the binary logarithm, so a rational of the normal
  range is rounded with a relative error of at most \<open>2 ^ -53\<close>.
\<close>

lemma ilog2_bounds: "0 < n \<Longrightarrow> 2 ^ ilog2 n \<le> n \<and> n < 2 ^ Suc (ilog2 n)"
proof (induction n rule: ilog2.induct)
  case (1 n)
  show ?case
  proof (cases "n < 2")
    case True
    with "1.prems" have "n = 1" by simp
    then show ?thesis by (simp add: ilog2.simps)
  next
    case False
    then have pos: "0 < n div 2" by simp
    have eq: "ilog2 n = Suc (ilog2 (n div 2))"
      using False by (subst ilog2.simps) simp
    from "1.IH" [OF False pos]
    have lo: "2 ^ ilog2 (n div 2) \<le> n div 2" and hi: "n div 2 < 2 ^ Suc (ilog2 (n div 2))"
      by simp_all
    from lo have "2 * 2 ^ ilog2 (n div 2) \<le> n" by linarith
    moreover from hi have "n < 2 * 2 ^ Suc (ilog2 (n div 2))" by linarith
    ultimately show ?thesis by (simp add: eq)
  qed
qed

lemma pow2_pos: "0 < pow2 e"
  by (simp add: pow2_def)

lemma pow2_nonneg: "0 \<le> pow2 e"
  by (simp add: pow2_def)

lemma pow2_of_nat: "pow2 (int n) = 2 ^ n"
  by (simp add: pow2_def)

lemma pow2_neg_nat: "pow2 (- int n) = 1 / 2 ^ n"
proof (cases "n = 0")
  case True
  then show ?thesis by (simp add: pow2_def)
next
  case False
  then have "\<not> 0 \<le> - int n" and "nat (- (- int n)) = n" by simp_all
  then show ?thesis by (simp only: pow2_def if_False)
qed

lemma pow2_Suc: "pow2 (e + 1) = 2 * pow2 e"
proof (cases "0 \<le> e")
  case True
  then have "nat (e + 1) = Suc (nat e)" by simp
  with True show ?thesis by (simp add: pow2_def)
next
  case False
  then have "nat (- e) = Suc (nat (- (e + 1)))" by simp
  then have "(2::rat) ^ nat (- e) = 2 * 2 ^ nat (- (e + 1))" by simp
  with False show ?thesis by (cases "e = -1") (simp_all add: pow2_def)
qed

lemma pow2_add_nat: "pow2 (e + int n) = 2 ^ n * pow2 e"
proof (induction n)
  case 0
  show ?case by simp
next
  case (Suc n)
  have "e + int (Suc n) = (e + int n) + 1" by simp
  then have "pow2 (e + int (Suc n)) = pow2 ((e + int n) + 1)" by (simp only:)
  also have "\<dots> = 2 * pow2 (e + int n)" by (rule pow2_Suc)
  finally show ?case by (simp add: Suc.IH)
qed

lemma pow2_mono: "a \<le> b \<Longrightarrow> pow2 a \<le> pow2 b"
proof -
  assume "a \<le> b"
  then obtain n where b: "b = a + int n" using zle_iff_zadd by auto
  have "(1::rat) \<le> 2 ^ n" by simp
  moreover have "0 \<le> pow2 a" by (rule pow2_nonneg)
  ultimately have "1 * pow2 a \<le> 2 ^ n * pow2 a" by (rule mult_right_mono)
  then have "pow2 a \<le> 2 ^ n * pow2 a" by simp
  then show ?thesis by (simp add: b pow2_add_nat)
qed

lemma pow2_less_imp: "pow2 a < pow2 b \<Longrightarrow> a < b"
  using pow2_mono [of b a] by (cases "a < b") auto

lemma binade_bounds:
  assumes "0 < q"
  shows "pow2 (binade q) \<le> q \<and> q < pow2 (binade q + 1)"
proof (cases "1 \<le> q")
  case True
  define n where "n = nat \<lfloor>q\<rfloor>"
  have fl1: "1 \<le> \<lfloor>q\<rfloor>" using True by simp
  then have npos: "0 < n" by (simp add: n_def)
  have "(of_nat n :: rat) = of_int \<lfloor>q\<rfloor>"
    using fl1 by (simp add: n_def)
  then have nq: "of_nat n \<le> q" "q < of_nat n + 1"
    using floor_correct [of q] by simp_all
  from ilog2_bounds [OF npos]
  have lo: "2 ^ ilog2 n \<le> n" and hi: "n + 1 \<le> 2 ^ Suc (ilog2 n)" by simp_all
  have "(of_nat (2 ^ ilog2 n) :: rat) \<le> of_nat n"
    using lo by (simp only: of_nat_le_iff)
  then have "(2::rat) ^ ilog2 n \<le> of_nat n" by simp
  then have A: "pow2 (int (ilog2 n)) \<le> q"
    unfolding pow2_of_nat using nq by linarith
  have "(of_nat (n + 1) :: rat) \<le> of_nat (2 ^ Suc (ilog2 n))"
    using hi by (simp only: of_nat_le_iff)
  then have "(of_nat n + 1 :: rat) \<le> 2 ^ Suc (ilog2 n)" by simp
  then have B: "q < pow2 (int (ilog2 n) + 1)"
    unfolding pow2_Suc pow2_of_nat using nq by simp
  have "binade q = int (ilog2 n)" using True by (simp add: binade_def n_def)
  with A B show ?thesis by simp
next
  case False
  define y where "y = 1 / q"
  define c where "c = \<lceil>y\<rceil>"
  define k where "k = nat (c - 1)"
  have y1: "1 < y" using False assms by (simp add: y_def)
  then have c2: "2 \<le> c" unfolding c_def by (simp add: le_ceiling_iff)
  then have kpos: "0 < k" by (simp add: k_def)
  have kc: "int k = c - 1" using c2 by (simp add: k_def)
  have yc: "y \<le> of_int c" "of_int c - 1 < y"
    unfolding c_def by linarith+
  from ilog2_bounds [OF kpos]
  have lo: "2 ^ ilog2 k \<le> k" and hi: "k + 1 \<le> 2 ^ Suc (ilog2 k)" by simp_all
  have kq: "(of_nat k :: rat) = of_int c - 1"
  proof -
    have "(of_int (int k) :: rat) = of_int (c - 1)" by (simp only: kc)
    then show ?thesis by simp
  qed
  have "(of_nat (2 ^ ilog2 k) :: rat) \<le> of_nat k"
    using lo by (simp only: of_nat_le_iff)
  then have "(2::rat) ^ ilog2 k \<le> of_nat k" by simp
  also note kq
  finally have ylo: "2 ^ ilog2 k < y" using yc by simp
  have "(of_nat (k + 1) :: rat) \<le> of_nat (2 ^ Suc (ilog2 k))"
    using hi by (simp only: of_nat_le_iff)
  then have "(of_nat k + 1 :: rat) \<le> 2 ^ Suc (ilog2 k)" by simp
  moreover have "(of_nat k + 1 :: rat) = of_int c" using kq by simp
  ultimately have yhi: "y \<le> 2 ^ Suc (ilog2 k)" using yc by simp
  have qy: "q = 1 / y" by (simp add: y_def)
  have ypos: "0 < y" using y1 by simp
  have A: "1 / 2 ^ Suc (ilog2 k) \<le> q"
    unfolding qy using yhi ypos by (simp add: frac_le)
  have B: "q < 1 / 2 ^ ilog2 k"
    unfolding qy using ylo by (simp add: frac_less2)
  have e: "binade q = - int (Suc (ilog2 k))"
    using False by (simp add: binade_def k_def c_def y_def)
  have e1: "binade q + 1 = - int (ilog2 k)" by (simp add: e)
  show ?thesis
    unfolding e1 unfolding e pow2_neg_nat using A B by simp
qed

lemma round_half_even_error: "\<bar>of_int (round_half_even x) - x\<bar> \<le> 1 / 2"
proof -
  have "of_int \<lfloor>x\<rfloor> \<le> x" "x < of_int \<lfloor>x\<rfloor> + 1" by linarith+
  then show ?thesis
    by (auto simp add: round_half_even_def Let_def)
qed

lemma pow2_diff_nat: "pow2 (e - int n) * 2 ^ n = pow2 e"
  using pow2_add_nat [of "e - int n" n] by (simp add: mult.commute)

lemma binade_ge:
  assumes "pow2 a \<le> q"
  shows "a \<le> binade q"
proof -
  have qpos: "0 < q" using assms pow2_pos [of a] by linarith
  have "pow2 a < pow2 (binade q + 1)"
    using binade_bounds [OF qpos] assms by linarith
  then have "a < binade q + 1" by (rule pow2_less_imp)
  then show ?thesis by simp
qed

lemma round_double_error:
  assumes "pow2 (- 1022) \<le> q"
  shows "\<bar>round_double q - q\<bar> \<le> q / 2 ^ 53"
proof -
  have qpos: "0 < q" using assms pow2_pos [of "- 1022"] by linarith
  define e where "e = binade q"
  define u where "u = pow2 (e - 52)"
  have upos: "0 < u" unfolding u_def by (rule pow2_pos)
  have ege: "- 1022 \<le> e" unfolding e_def using assms by (rule binade_ge)
  have abs: "\<bar>q\<bar> = q" using qpos by simp
  have rd: "round_double q = of_int (round_half_even (q / u)) * u"
    using qpos ege by (simp add: round_double_def abs e_def [symmetric] max_def u_def Let_def)
  have "round_double q - q = (of_int (round_half_even (q / u)) - q / u) * u"
    using upos by (simp add: rd left_diff_distrib)
  then have "\<bar>round_double q - q\<bar> = \<bar>of_int (round_half_even (q / u)) - q / u\<bar> * u"
    using upos by (simp add: abs_mult)
  also have "\<dots> \<le> (1 / 2) * u"
    using round_half_even_error [of "q / u"] upos by (simp add: mult_right_mono)
  finally have b1: "\<bar>round_double q - q\<bar> \<le> u / 2" by simp
  have "pow2 (e - int 52) * 2 ^ 52 = pow2 e" by (rule pow2_diff_nat)
  then have "u * 2 ^ 52 = pow2 e" by (simp add: u_def)
  moreover have "pow2 e \<le> q" unfolding e_def using binade_bounds [OF qpos] by simp
  ultimately have "u * 2 ^ 52 \<le> q" by simp
  then have "u / 2 \<le> q / 2 ^ 53" by simp
  with b1 show ?thesis by linarith
qed

lemma round_double_0: "round_double 0 = 0"
  by (simp add: round_double_def)

lemma tenths_exact:
  "round_double (round_double (1 / 10) * 10) = 1"
  "round_double (round_double (2 / 10) * 10) = 2"
  "round_double (round_double (3 / 10) * 10) = 3"
  "round_double (round_double (4 / 10) * 10) = 4"
  "round_double (round_double (5 / 10) * 10) = 5"
  "round_double (round_double (6 / 10) * 10) = 6"
  "round_double (round_double (7 / 10) * 10) = 7"
  "round_double (round_double (8 / 10) * 10) = 8"
  "round_double (round_double (9 / 10) * 10) = 9"
  "round_double (round_double (10 / 10) * 10) = 10"
  by code_simp+

subsection \<open>The fill level\<close>

text \<open>
  For a time left between zero and the duration, the quotient is at most one.
  Where ten times the quotient is a whole number the two roundings give it
  exactly; elsewhere it is at least one part in 1500 away from the next whole
  number, far more than the two rounding errors.
\<close>

lemma pow2_m1022_small: "pow2 (- 1022) \<le> 1 / 3000"
proof -
  have "pow2 (- 1022) \<le> pow2 (- 12)" by (rule pow2_mono) simp
  also have "pow2 (- 12) = 1 / 2 ^ 12" by (simp add: pow2_def)
  also have "\<dots> \<le> 1 / 3000" by simp
  finally show ?thesis .
qed

lemma round_double_rel:
  assumes "1 / 3000 \<le> q"
  shows "q - q / 9007199254740992 \<le> round_double q" "round_double q \<le> q + q / 9007199254740992"
proof -
  have "pow2 (- 1022) \<le> q" using pow2_m1022_small assms by linarith
  from round_double_error [OF this]
  have "\<bar>round_double q - q\<bar> \<le> q / 9007199254740992" by simp
  then show "q - q / 9007199254740992 \<le> round_double q" "round_double q \<le> q + q / 9007199254740992"
    by linarith+
qed

lemma twice_rounded_close:
  assumes "1 / 1500 \<le> q" "q \<le> 1"
  shows "10 * q - 1 / 3000 < round_double (round_double q * 10)"
    and "round_double (round_double q * 10) < 10 * q + 1 / 3000"
    and "\<bar>round_double q\<bar> < 2"
proof -
  define x where "x = round_double q"
  have q3: "1 / 3000 \<le> q" using assms by linarith
  have x1: "q - q / 9007199254740992 \<le> x" and x2: "x \<le> q + q / 9007199254740992"
    unfolding x_def using round_double_rel [OF q3] by simp_all
  have xlo: "1 / 3000 \<le> x * 10" using x1 assms by linarith
  have y1: "x * 10 - x * 10 / 9007199254740992 \<le> round_double (x * 10)"
    and y2: "round_double (x * 10) \<le> x * 10 + x * 10 / 9007199254740992"
    using round_double_rel [OF xlo] by simp_all
  show "10 * q - 1 / 3000 < round_double (round_double q * 10)"
    unfolding x_def [symmetric] using x1 x2 y1 assms by linarith
  show "round_double (round_double q * 10) < 10 * q + 1 / 3000"
    unfolding x_def [symmetric] using x1 x2 y2 assms by linarith
  show "\<bar>round_double q\<bar> < 2"
    unfolding x_def [symmetric] using x1 x2 assms by linarith
qed

lemma tenth_cases:
  assumes "1 \<le> k" "k \<le> 10"
  shows "round_double (round_double (of_int k / 10) * 10) = of_int k"
proof -
  from assms have "k = 1 \<or> k = 2 \<or> k = 3 \<or> k = 4 \<or> k = 5 \<or> k = 6 \<or> k = 7 \<or> k = 8 \<or> k = 9 \<or> k = 10"
    by presburger
  then show ?thesis using tenths_exact by (elim disjE) simp_all
qed

lemma level_core:
  fixes r d :: int
  assumes d: "0 < d" "d \<le> 1500" and r: "0 \<le> r" "r \<le> d"
  defines "y \<equiv> round_double (round_double (of_int r / of_int d) * 10)"
  shows "\<bar>round_double (of_int r / of_int d)\<bar> < 2 \<and> 0 \<le> y \<and> y < 12 \<and> \<lfloor>y\<rfloor> = (10 * r) div d"
proof (cases "r = 0")
  case True
  then show ?thesis by (simp add: y_def round_double_0)
next
  case False
  define q :: rat where "q = of_int r / of_int d"
  define k where "k = (10 * r) div d"
  define m where "m = (10 * r) mod d"
  have rpos: "1 \<le> r" using False r by simp
  have dq: "(of_int d :: rat) > 0" "(of_int d :: rat) \<le> 1500" using d by simp_all
  have dinv: "1 / 1500 \<le> 1 / (of_int d :: rat)" using dq by (simp add: frac_le)
  have "1 / of_int d \<le> of_int r / (of_int d :: rat)"
    using rpos dq by (simp add: divide_right_mono)
  then have qlo: "1 / 1500 \<le> q" unfolding q_def using dinv by linarith
  have qhi: "q \<le> 1" unfolding q_def using r dq by simp
  have yq: "y = round_double (round_double q * 10)" by (simp add: y_def q_def)
  note close = twice_rounded_close [OF qlo qhi]
  have km: "10 * r = k * d + m" by (simp add: k_def m_def)
  have mb: "0 \<le> m" "m < d" using d by (simp_all add: m_def)
  have "10 * q = of_int (10 * r) / of_int d" by (simp add: q_def)
  also have "\<dots> = of_int k + of_int m / of_int d"
    using dq by (simp add: km add_divide_distrib)
  finally have tq: "10 * q = of_int k + of_int m / of_int d" .
  have k0: "0 \<le> k" using r d by (simp add: k_def pos_imp_zdiv_nonneg_iff)
  have x2: "\<bar>round_double (of_int r / of_int d)\<bar> < 2" using close(3) by (simp add: q_def)
  show ?thesis
  proof (cases "m = 0")
    case True
    then have qk: "q = of_int k / 10" using tq by simp
    have "of_int k = 10 * q" using True tq by simp
    then have "1 / 150 \<le> (of_int k :: rat)" "(of_int k :: rat) \<le> 10" using qlo qhi by linarith+
    then have kb: "1 \<le> k" "k \<le> 10" by linarith+
    have "y = of_int k" unfolding yq qk using kb by (rule tenth_cases)
    then show ?thesis using x2 kb by (simp add: k_def)
  next
    case False
    then have m1: "1 \<le> m" "m \<le> d - 1" using mb by simp_all
    have "1 / of_int d \<le> of_int m / (of_int d :: rat)"
      using m1 dq by (simp add: divide_right_mono)
    then have f1: "1 / 1500 \<le> of_int m / (of_int d :: rat)" using dinv by linarith
    have "of_int m / (of_int d :: rat) \<le> (of_int d - 1) / of_int d"
      using m1 dq by (simp add: divide_right_mono)
    also have "\<dots> = 1 - 1 / of_int d" using dq by (simp add: diff_divide_distrib)
    finally have f2: "of_int m / (of_int d :: rat) \<le> 1 - 1 / 1500" using dinv by linarith
    have ylo: "of_int k < y" unfolding yq using close(1) tq f1 by linarith
    have yhi: "y < of_int k + 1" unfolding yq using close(2) tq f2 by linarith
    have "\<lfloor>y\<rfloor> = k" using ylo yhi by (simp add: floor_unique)
    moreover have "0 \<le> y" using ylo k0 by (simp add: order.strict_implies_order order_trans [of 0 "of_int k"])
    moreover have "y < 12" using yhi close(2) qhi unfolding yq by linarith
    ultimately show ?thesis using x2 by (simp add: k_def)
  qed
qed

lemma fill_level_value:
  assumes dur: "DURATIONS (current_state t) = Some d"
    and lo: "0 \<le> time_remaining t" and hi: "time_remaining t \<le> d"
  shows "fill_level t = Inr ((10 * time_remaining t) div d)"
proof -
  have d: "0 < d" "d \<le> 1500" using DURATIONS_cases [OF dur] by auto
  define x where "x = round_double (of_int (time_remaining t) / of_int d)"
  define y where "y = round_double (x * 10)"
  from level_core [OF d lo hi]
  have x2: "\<bar>x\<bar> < 2" and y0: "0 \<le> y" and y12: "y < 12"
    and fl: "\<lfloor>y\<rfloor> = (10 * time_remaining t) div d"
    by (simp_all add: x_def y_def)
  have big: "(12::rat) \<le> 2 ^ 1024" by simp
  have xb: "\<not> 2 ^ 1024 \<le> x" "\<not> x \<le> - (2 ^ 1024)" using x2 big by linarith+
  have yb: "\<not> 2 ^ 1024 \<le> y" "\<not> y \<le> - (2 ^ 1024)" using y0 y12 big by linarith+
  have fx: "to_float (of_int (time_remaining t) / of_int d) = Finite x"
    unfolding to_float_def x_def [symmetric] Let_def using xb by (simp only: if_False)
  have fy: "to_float (x * 10) = Finite y"
    unfolding to_float_def y_def [symmetric] Let_def using yb by (simp only: if_False)
  have "int_truediv (time_remaining t) d = Inr (Finite x)"
    using d fx by (simp add: int_truediv_def)
  moreover have "int_of_float (float_mul_int (Finite x) 10) = Inr \<lfloor>y\<rfloor>"
    using fy y0 by (simp add: float_mul_int_def int_of_float_def)
  ultimately show ?thesis
    using dur by (simp add: fill_level_def subscript_def fl)
qed

lemma timer_inv_fill_level:
  assumes "timer_inv t"
  shows "\<exists>d. DURATIONS (current_state t) = Some d \<and> fill_level t = Inr ((10 * time_remaining t) div d)"
proof -
  from assms obtain d where d: "DURATIONS (current_state t) = Some d"
    and "0 \<le> time_remaining t" "time_remaining t \<le> d"
    by (auto simp add: timer_inv_def split: option.splits)
  then show ?thesis using fill_level_value [of t d] by simp
qed

lemma timer_inv_display:
  "timer_inv t \<Longrightarrow> \<exists>s. get_energy_drink_display t = Inr s"
  using timer_inv_fill_level [of t] by (auto simp add: get_energy_drink_display_def)

subsection \<open>Preservation of the invariant\<close>

lemma update_display_Inr:
  assumes "timer_inv (timer g)"
  shows "\<exists>c s. update_display g =
           Inr (g\<lparr>bg := c, state_label := state_value (current_state (timer g)),
                  drink_label := s,
                  cycle_indicators := map (\<lambda>i. int i < focus_count (timer g))
                                        [0..<length (cycle_indicators g)]\<rparr>)"
proof -
  obtain c where "subscript COLORS (current_state (timer g)) = Inr c"
    using subscript_COLORS by blast
  moreover obtain s where "get_energy_drink_display (timer g) = Inr s"
    using timer_inv_display [OF assms] by blast
  ultimately have "update_display g =
           Inr (g\<lparr>bg := c, state_label := state_value (current_state (timer g)),
                  drink_label := s,
                  cycle_indicators := map (\<lambda>i. int i < focus_count (timer g))
                                        [0..<length (cycle_indicators g)]\<rparr>)"
    by (simp add: update_display_def)
  then show ?thesis by blast
qed

lemma update_display_frame:
  "update_display g = Inr g' \<Longrightarrow>
     timer g' = timer g \<and> length (cycle_indicators g') = length (cycle_indicators g)
     \<and> cycle_indicators g' = map (\<lambda>i. int i < focus_count (timer g)) [0..<length (cycle_indicators g)]"
  by (auto simp add: update_display_def split: sum.splits)

lemma timer_inv_is_running [simp]: "timer_inv (t\<lparr>is_running := b\<rparr>) = timer_inv t"
  by (simp add: timer_inv_def split: option.splits)

lemma timer_inv_timer_id [simp]: "timer_inv (t\<lparr>timer_id := b\<rparr>) = timer_inv t"
  by (simp add: timer_inv_def split: option.splits)

lemma tick_inv: "timer_inv t \<Longrightarrow> timer_inv (snd (tick t))"
  by (auto simp add: timer_inv_def tick_def Let_def split: option.splits)

lemma transition_inv:
  assumes "timer_inv t"
  shows "\<exists>t'. transition_to_next_state t = Inr t' \<and> timer_inv t'"
proof -
  from assms have c: "0 \<le> focus_count t" "focus_count t \<le> 3" by (simp_all add: timer_inv_def)
  show ?thesis
    using c by (cases "current_state t")
      (auto simp add: transition_to_next_state_def get_next_state_def Let_def subscript_def
        timer_inv_def)
qed

lemma reset_inv:
  assumes "timer_inv t"
  shows "\<exists>t'. reset_to_focus t = Inr t' \<and> timer_inv t'"
  using assms by (cases "current_state t")
    (auto simp add: reset_to_focus_def subscript_def timer_inv_def Let_def)

lemma stop_inv:
  assumes "timer_inv (timer g)"
  shows "\<exists>g'. stop_timer g = Inr g' \<and> timer_inv (timer g')
               \<and> length (cycle_indicators g') = length (cycle_indicators g)"
proof -
  obtain d where d: "subscript DURATIONS (current_state (timer g)) = Inr d"
      "DURATIONS (current_state (timer g)) = Some d" "0 < d"
    using subscript_DURATIONS by blast
  define g1 where "g1 = g\<lparr>timer := (timer g)\<lparr>is_running := False, time_remaining := d\<rparr>,
     start_button := NORMAL, pause_button := DISABLED, stop_button := DISABLED\<rparr>"
  have inv1: "timer_inv (timer g1)"
    using assms d by (simp add: g1_def timer_inv_def)
  from update_display_Inr [OF inv1] obtain g' where g': "update_display g1 = Inr g'" by blast
  have "stop_timer g = update_display g1"
    using d by (simp add: stop_timer_def g1_def Let_def)
  with g' update_display_frame [OF g'] inv1 show ?thesis by (simp add: g1_def)
qed

lemma schedule_frame [simp]:
  "timer_inv (timer (schedule g)) = timer_inv (timer g)"
  "cycle_indicators (schedule g) = cycle_indicators g"
  "current_state (timer (schedule g)) = current_state (timer g)"
  "focus_count (timer (schedule g)) = focus_count (timer g)"
  "time_remaining (timer (schedule g)) = time_remaining (timer g)"
  "is_running (timer (schedule g)) = is_running (timer g)"
  by (simp_all add: schedule_def)

lemma countdown_running:
  assumes inv: "timer_inv (timer g)" and run: "is_running (timer g)"
  shows "\<exists>g' t'. countdown g = Inr g' \<and> timer_inv (timer g')
           \<and> length (cycle_indicators g') = length (cycle_indicators g)
           \<and> (if fst (tick (timer g)) then transition_to_next_state (snd (tick (timer g))) = Inr t'
               else t' = snd (tick (timer g)))
           \<and> timer g' = t'\<lparr>timer_id := Some (after_count g)\<rparr>"
proof -
  obtain b t1 where tk: "tick (timer g) = (b, t1)" by (cases "tick (timer g)")
  have inv1: "timer_inv t1" using tick_inv [OF inv] tk by simp
  then have "timer_inv (timer (g\<lparr>timer := t1\<rparr>))" by simp
  from update_display_Inr [OF this] obtain g1
    where g1: "update_display (g\<lparr>timer := t1\<rparr>) = Inr g1" by blast
  note f1 = update_display_frame [OF g1]
  have a1: "after_count g1 = after_count g"
    using g1 by (auto simp add: update_display_def split: sum.splits)
  show ?thesis
  proof (cases b)
    case False
    have "countdown g = Inr (schedule g1)"
      using run tk g1 False by (simp add: countdown_def)
    moreover have "timer (schedule g1) = t1\<lparr>timer_id := Some (after_count g)\<rparr>"
      using f1 a1 by (simp add: schedule_def)
    ultimately show ?thesis using inv1 f1 tk False by simp
  next
    case True
    from transition_inv [OF inv1] obtain t2
      where t2: "transition_to_next_state t1 = Inr t2" "timer_inv t2" by blast
    then have "timer_inv (timer (g1\<lparr>timer := t2\<rparr>))" by simp
    from update_display_Inr [OF this] obtain g2
      where g2: "update_display (g1\<lparr>timer := t2\<rparr>) = Inr g2" by blast
    note f2 = update_display_frame [OF g2]
    have a2: "after_count g2 = after_count g"
      using g2 a1 by (auto simp add: update_display_def split: sum.splits)
    have "countdown g = Inr (schedule g2)"
      using run tk g1 True t2 f1 g2 by (simp add: countdown_def)
    moreover have "timer (schedule g2) = t2\<lparr>timer_id := Some (after_count g)\<rparr>"
      using f2 a2 by (simp add: schedule_def)
    ultimately show ?thesis using t2 f1 f2 tk True by simp
  qed
qed

lemma countdown_inv:
  assumes inv: "timer_inv (timer g)"
  shows "\<exists>g'. countdown g = Inr g' \<and> timer_inv (timer g')
           \<and> length (cycle_indicators g') = length (cycle_indicators g)"
proof (cases "is_running (timer g)")
  case True
  from countdown_running [OF inv True] show ?thesis by blast
next
  case False
  then show ?thesis using inv by (simp add: countdown_def)
qed

lemma start_inv:
  assumes inv: "timer_inv (timer g)"
  shows "\<exists>g'. start_timer g = Inr g' \<and> timer_inv (timer g')
           \<and> length (cycle_indicators g') = length (cycle_indicators g)"
proof (cases "is_running (timer g)")
  case True
  then show ?thesis using inv by (simp add: start_timer_def)
next
  case False
  define g1 where "g1 = g\<lparr>timer := (timer g)\<lparr>is_running := True\<rparr>,
     start_button := DISABLED, pause_button := NORMAL, stop_button := NORMAL\<rparr>"
  have "timer_inv (timer g1)" using inv by (simp add: g1_def)
  from countdown_inv [OF this] obtain g' where "countdown g1 = Inr g'" "timer_inv (timer g')"
    "length (cycle_indicators g') = length (cycle_indicators g1)" by blast
  moreover have "start_timer g = countdown g1" using False by (simp add: start_timer_def g1_def)
  ultimately show ?thesis by (simp add: g1_def)
qed

lemma pause_inv:
  assumes inv: "timer_inv (timer g)"
  shows "\<exists>g'. pause_timer g = Inr g' \<and> timer_inv (timer g')
           \<and> length (cycle_indicators g') = length (cycle_indicators g)"
  using inv by (simp add: pause_timer_def)

lemma reset_timer_inv:
  assumes inv: "timer_inv (timer g)"
  shows "\<exists>g'. reset_timer g = Inr g' \<and> timer_inv (timer g')
           \<and> length (cycle_indicators g') = length (cycle_indicators g)"
proof -
  have "timer_inv ((timer g)\<lparr>is_running := False\<rparr>)" using inv by simp
  from reset_inv [OF this] obtain t2
    where t2: "reset_to_focus ((timer g)\<lparr>is_running := False\<rparr>) = Inr t2" "timer_inv t2" by blast
  define g1 where "g1 = g\<lparr>timer := t2,
     start_button := NORMAL, pause_button := DISABLED, stop_button := DISABLED\<rparr>"
  have inv1: "timer_inv (timer g1)" using t2 by (simp add: g1_def)
  from update_display_Inr [OF inv1] obtain g' where g': "update_display g1 = Inr g'" by blast
  have "reset_timer g = update_display g1"
    using t2 by (simp add: reset_timer_def g1_def Let_def)
  with g' update_display_frame [OF g'] inv1 show ?thesis by (simp add: g1_def)
qed

lemma perform_inv:
  assumes inv: "timer_inv (timer g)"
  shows "\<exists>g'. perform c g = Inr g' \<and> timer_inv (timer g')
           \<and> length (cycle_indicators g') = length (cycle_indicators g)"
proof (cases c)
  case Tick
  then show ?thesis using tick_inv [OF inv] by simp
next
  case TransitionToNext
  then show ?thesis using transition_inv [OF inv] by auto
next
  case ResetToFocus
  then show ?thesis using reset_inv [OF inv] by auto
next
  case Stop
  then show ?thesis using stop_inv [OF inv] by simp
next
  case Start
  then show ?thesis using start_inv [OF inv] by simp
next
  case Pause
  then show ?thesis using pause_inv [OF inv] by simp
next
  case Reset
  then show ?thesis using reset_timer_inv [OF inv] by simp
next
  case Countdown
  then show ?thesis using countdown_inv [OF inv] by simp
qed

lemma init_value:
  "init = Inr \<lparr>current_state = FOCUS, time_remaining = 1500, is_running = False,
               focus_count = 0, timer_id = None\<rparr>"
  by (simp add: init_def subscript_def)

lemma gui_init_inv:
  "\<exists>g. gui_init = Inr g \<and> timer_inv (timer g) \<and> length (cycle_indicators g) = 4
       \<and> timer g = \<lparr>current_state = FOCUS, time_remaining = 1500, is_running = False,
               focus_count = 0, timer_id = None\<rparr>"
proof -
  define t where "t = \<lparr>current_state = FOCUS, time_remaining = 1500, is_running = False,
               focus_count = 0, timer_id = None\<rparr>"
  have inv: "timer_inv t" by (simp add: t_def timer_inv_def)
  obtain c where c: "subscript COLORS FOCUS = Inr c" using subscript_COLORS by blast
  obtain s where s: "get_energy_drink_display t = Inr s" using timer_inv_display [OF inv] by blast
  define g0 where "g0 = \<lparr>timer = t, bg = c, state_label = state_value (current_state t),
                     drink_label = s, cycle_indicators = map (\<lambda>i. False) [0..<4],
                     start_button = NORMAL, pause_button = DISABLED,
                     stop_button = DISABLED, after_count = 0\<rparr>"
  have cw: "create_widgets t = Inr g0" using c s by (simp add: create_widgets_def g0_def)
  have "timer_inv (timer g0)" using inv by (simp add: g0_def)
  from update_display_Inr [OF this] obtain g where g: "update_display g0 = Inr g" by blast
  have "gui_init = Inr g" using cw g by (simp add: gui_init_def init_value t_def [symmetric])
  moreover have "timer g = t" "length (cycle_indicators g) = 4"
    using update_display_frame [OF g] by (simp_all add: g0_def)
  ultimately have "gui_init = Inr g \<and> timer_inv (timer g)
      \<and> length (cycle_indicators g) = 4 \<and> timer g = t"
    using inv by simp
  then show ?thesis unfolding t_def by (rule exI)
qed

lemma reachable_inv:
  "reachable g \<Longrightarrow> timer_inv (timer g) \<and> length (cycle_indicators g) = 4"
proof (induction rule: reachable.induct)
  case (reachable_init g)
  from gui_init_inv obtain g0 where g0: "gui_init = Inr g0" "timer_inv (timer g0)"
    "length (cycle_indicators g0) = 4" by blast
  have "Inr g0 = (Inr g :: error + PomodoroGUI)"
    using g0(1) reachable_init by (rule subst)
  then have "g0 = g" by (simp only: sum.inject)
  with g0 show ?case by simp
next
  case (reachable_step g c g')
  then show ?case using perform_inv [of g c] by auto
qed

subsection \<open>The cycle of phases\<close>

lemma run_phase_expires:
  "0 < time_remaining t \<Longrightarrow> nat (time_remaining t) \<le> fuel \<Longrightarrow>
     run_phase fuel t = Some (transition_to_next_state (t\<lparr>time_remaining := 0\<rparr>))"
proof (induction fuel arbitrary: t)
  case 0
  then show ?case by simp
next
  case (Suc fuel)
  show ?case
  proof (cases "time_remaining t = 1")
    case True
    then show ?thesis by (simp add: tick_def Let_def)
  next
    case False
    define t1 where "t1 = t\<lparr>time_remaining := time_remaining t - 1\<rparr>"
    have "0 < time_remaining t1" "nat (time_remaining t1) \<le> fuel"
      using Suc.prems False by (simp_all add: t1_def)
    from Suc.IH [OF this]
    have "run_phase fuel t1 = Some (transition_to_next_state (t\<lparr>time_remaining := 0\<rparr>))"
      by (simp add: t1_def)
    moreover have "tick t = (False, t1)"
      using Suc.prems False by (simp add: tick_def Let_def t1_def)
    ultimately show ?thesis by simp
  qed
qed

lemma run_phases_unfold:
  "0 < k \<Longrightarrow> run_phases fuel k t =
     (case run_phase fuel t of
        Some (Inr t1) \<Rightarrow> (current_state t1, focus_count t1) # run_phases fuel (k - 1) t1
      | _ \<Rightarrow> [])"
  by (cases k) (simp_all split: option.splits sum.splits)

text \<open>
  C1. Run from the state that \<open>init\<close> builds, each phase ticked down to zero
  and then left by \<open>transition_to_next_state\<close>. The count seen after the focus
  phases is 1, 2, 3, 0, 1, 2, 3 as the claim says. The phases are not the
  claimed ones: the increment comes before \<open>get_next_state\<close> reads the count,
  so the first long break follows the third focus phase, where the claim has
  a short break, and the fourth focus phase is followed by a short break, where
  the claim has the long break. The list below holds the phase entered by each
  transition together with the count at that moment.
\<close>

theorem long_break_after_third_focus:
  "init = Inr \<lparr>current_state = FOCUS, time_remaining = 1500, is_running = False,
               focus_count = 0, timer_id = None\<rparr>
   \<and> run_phases 1500 14 \<lparr>current_state = FOCUS, time_remaining = 1500, is_running = False,
                          focus_count = 0, timer_id = None\<rparr>
     = [(SHORT_BREAK, 1), (FOCUS, 1), (SHORT_BREAK, 2), (FOCUS, 2), (LONG_BREAK, 3),
        (FOCUS, 3), (SHORT_BREAK, 0), (FOCUS, 0), (SHORT_BREAK, 1), (FOCUS, 1),
        (SHORT_BREAK, 2), (FOCUS, 2), (LONG_BREAK, 3), (FOCUS, 3)]"
  by (simp add: init_value run_phases_unfold run_phase_expires transition_to_next_state_def
      get_next_state_def subscript_def Let_def)

text \<open>
  C2. One transition out of a focus phase. With the count at 2 the code enters
  the long break, where the claim (the phase chosen from the count before the
  increment) has the short break; with the count at 3 it wraps the count to 0
  and enters the short break, where the claim has the long break. The count
  and the time left are set as the claim says.
\<close>

theorem transition_reads_incremented_count:
  "transition_to_next_state \<lparr>current_state = FOCUS, time_remaining = 0, is_running = True,
                              focus_count = 2, timer_id = None\<rparr>
     = Inr \<lparr>current_state = LONG_BREAK, time_remaining = 900, is_running = True,
             focus_count = 3, timer_id = None\<rparr>
   \<and> transition_to_next_state \<lparr>current_state = FOCUS, time_remaining = 0, is_running = True,
                                focus_count = 3, timer_id = None\<rparr>
     = Inr \<lparr>current_state = SHORT_BREAK, time_remaining = 300, is_running = True,
             focus_count = 0, timer_id = None\<rparr>"
  by (simp add: transition_to_next_state_def get_next_state_def subscript_def Let_def)

subsection \<open>The display and the stop button\<close>

lemma fold_snoc_map:
  "fold (\<lambda>i lines. if P i then lines @ [a] else lines @ [b]) xs l0
     = l0 @ map (\<lambda>i. if P i then a else b) xs"
  by (induction xs arbitrary: l0) simp_all

lemma bands_replicate:
  assumes "0 \<le> level" "level \<le> 10"
  shows "map (\<lambda>i. if int i < 10 - level then a else b) [0..<10]
           = replicate (nat (10 - level)) a @ replicate (nat level) b"
proof (rule nth_equalityI)
  show "length (map (\<lambda>i. if int i < 10 - level then a else b) [0..<10])
          = length (replicate (nat (10 - level)) a @ replicate (nat level) b)"
    using assms by simp
next
  fix i
  assume "i < length (map (\<lambda>i. if int i < 10 - level then a else b) [0..<10])"
  then have i: "i < 10" by simp
  then have "map (\<lambda>i. if int i < 10 - level then a else b) [0..<10] ! i
               = (if int i < 10 - level then a else b)"
    by (simp del: upt_Suc)
  moreover have "(replicate (nat (10 - level)) a @ replicate (nat level) b) ! i
               = (if int i < 10 - level then a else b)"
    using assms i by (auto simp add: nth_append)
  ultimately show "map (\<lambda>i. if int i < 10 - level then a else b) [0..<10] ! i
                     = (replicate (nat (10 - level)) a @ replicate (nat level) b) ! i"
    by simp
qed

lemma drink_lines_bands:
  assumes "0 \<le> level" "level \<le> 10"
  shows "drink_lines level =
           [can_top, can_pull_tab, can_opening, can_neck]
           @ replicate (nat (10 - level)) empty_part
           @ replicate (nat level) filled_part @ [can_bottom]"
  unfolding drink_lines_def Let_def fold_snoc_map bands_replicate [OF assms] by simp

lemma update_display_full:
  assumes "DURATIONS (current_state (timer g)) = Some (time_remaining (timer g))"
  shows "\<exists>g'. update_display g = Inr g' \<and> timer g' = timer g"
proof -
  have "0 \<le> time_remaining (timer g)" using DURATIONS_cases [OF assms] by auto
  then have "\<exists>l. fill_level (timer g) = Inr l"
    using fill_level_value [OF assms] by simp
  then obtain s where "get_energy_drink_display (timer g) = Inr s"
    by (auto simp add: get_energy_drink_display_def)
  moreover obtain c where "subscript COLORS (current_state (timer g)) = Inr c"
    using subscript_COLORS by blast
  ultimately show ?thesis by (simp add: update_display_def)
qed

text \<open>
  C6. \<open>stop_timer\<close>, from every state: it succeeds, the timer is no longer
  running, the time left is the full duration of the current phase, and the
  phase and the count (indeed every other field of the timer) are as before.
\<close>

theorem stop_timer_restores:
  assumes "DURATIONS (current_state (timer g)) = Some d"
  shows "\<exists>g'. stop_timer g = Inr g'
           \<and> timer g' = (timer g)\<lparr>is_running := False, time_remaining := d\<rparr>
           \<and> is_running (timer g') = False \<and> time_remaining (timer g') = d
           \<and> current_state (timer g') = current_state (timer g)
           \<and> focus_count (timer g') = focus_count (timer g)"
proof -
  define g1 where "g1 = g\<lparr>timer := (timer g)\<lparr>is_running := False, time_remaining := d\<rparr>,
     start_button := NORMAL, pause_button := DISABLED, stop_button := DISABLED\<rparr>"
  have "DURATIONS (current_state (timer g1)) = Some (time_remaining (timer g1))"
    using assms by (simp add: g1_def)
  from update_display_full [OF this] obtain g'
    where g': "update_display g1 = Inr g'" "timer g' = timer g1" by blast
  have "stop_timer g = update_display g1"
    using assms by (simp add: stop_timer_def g1_def Let_def subscript_def)
  with g' show ?thesis by (simp add: g1_def)
qed

theorem stop_timer_restores_witness:
  "DURATIONS LONG_BREAK = Some 900
   \<and> (\<exists>g'. stop_timer
          \<lparr>timer = \<lparr>current_state = LONG_BREAK, time_remaining = 50, is_running = True,
                      focus_count = 3, timer_id = Some 4\<rparr>,
            bg = codepoints ''#F44336'', state_label = codepoints ''Long Break'',
            drink_label = [], cycle_indicators = [True, True, True, False],
            start_button = DISABLED, pause_button = NORMAL, stop_button = NORMAL,
            after_count = 5\<rparr> = Inr g'
        \<and> timer g' = \<lparr>current_state = LONG_BREAK, time_remaining = 900, is_running = False,
                         focus_count = 3, timer_id = Some 4\<rparr>)"
  using stop_timer_restores [of
          "\<lparr>timer = \<lparr>current_state = LONG_BREAK, time_remaining = 50, is_running = True,
                      focus_count = 3, timer_id = Some 4\<rparr>,
            bg = codepoints ''#F44336'', state_label = codepoints ''Long Break'',
            drink_label = [], cycle_indicators = [True, True, True, False],
            start_button = DISABLED, pause_button = NORMAL, stop_button = NORMAL,
            after_count = 5\<rparr>" 900]
  by auto

lemma gui_init_value:
  "gui_init =
     Inr \<lparr>timer = \<lparr>current_state = FOCUS, time_remaining = 1500, is_running = False,
                     focus_count = 0, timer_id = None\<rparr>,
           bg = codepoints ''#4CAF50'', state_label = codepoints ''Focus'',
           drink_label = join [10] (drink_lines 10),
           cycle_indicators = [False, False, False, False],
           start_button = NORMAL, pause_button = DISABLED, stop_button = DISABLED,
           after_count = 0\<rparr>"
proof -
  define t where "t = \<lparr>current_state = FOCUS, time_remaining = 1500, is_running = False,
                     focus_count = 0, timer_id = None\<rparr>"
  have "fill_level t = Inr ((10 * time_remaining t) div 1500)"
    by (rule fill_level_value) (simp_all add: t_def)
  then have d: "get_energy_drink_display t = Inr (join [10] (drink_lines 10))"
    by (simp add: get_energy_drink_display_def t_def)
  have u: "[0..<4] = [0, 1, 2, 3]" by (simp add: upt_rec)
  show ?thesis
    unfolding t_def [symmetric]
    using d by (simp add: gui_init_def init_value t_def [symmetric] create_widgets_def
        update_display_def subscript_def COLORS_def u) (simp add: t_def)
qed

subsection \<open>Some reachable states\<close>

lemma reachable_initial:
  "reachable
     \<lparr>timer = \<lparr>current_state = FOCUS, time_remaining = 1500, is_running = False,
                 focus_count = 0, timer_id = None\<rparr>,
       bg = codepoints ''#4CAF50'', state_label = codepoints ''Focus'',
       drink_label = join [10] (drink_lines 10),
       cycle_indicators = [False, False, False, False],
       start_button = NORMAL, pause_button = DISABLED, stop_button = DISABLED,
       after_count = 0\<rparr>"
  using gui_init_value by (rule reachable_init)

lemma reachable_timer_call:
  assumes "reachable g"
    and "(c = Tick \<and> t = snd (tick (timer g)))
         \<or> (c = TransitionToNext \<and> transition_to_next_state (timer g) = Inr t)
         \<or> (c = ResetToFocus \<and> reset_to_focus (timer g) = Inr t)"
  shows "reachable (g\<lparr>timer := t\<rparr>)"
proof -
  have "perform c g = Inr (g\<lparr>timer := t\<rparr>)" using assms(2) by auto
  with assms(1) show ?thesis by (rule reachable_step)
qed

lemma reachable_after_tick:
  "reachable
     \<lparr>timer = \<lparr>current_state = FOCUS, time_remaining = 1499, is_running = False,
                 focus_count = 0, timer_id = None\<rparr>,
       bg = codepoints ''#4CAF50'', state_label = codepoints ''Focus'',
       drink_label = join [10] (drink_lines 10),
       cycle_indicators = [False, False, False, False],
       start_button = NORMAL, pause_button = DISABLED, stop_button = DISABLED,
       after_count = 0\<rparr>"
  using reachable_timer_call [OF reachable_initial, of Tick
      "\<lparr>current_state = FOCUS, time_remaining = 1499, is_running = False,
        focus_count = 0, timer_id = None\<rparr>"]
  by (simp add: tick_def Let_def)

lemma transition_values:
  "transition_to_next_state \<lparr>current_state = FOCUS, time_remaining = r, is_running = b,
      focus_count = 0, timer_id = i\<rparr>
     = Inr \<lparr>current_state = SHORT_BREAK, time_remaining = 300, is_running = b,
             focus_count = 1, timer_id = i\<rparr>"
  "transition_to_next_state \<lparr>current_state = FOCUS, time_remaining = r, is_running = b,
      focus_count = 1, timer_id = i\<rparr>
     = Inr \<lparr>current_state = SHORT_BREAK, time_remaining = 300, is_running = b,
             focus_count = 2, timer_id = i\<rparr>"
  "transition_to_next_state \<lparr>current_state = FOCUS, time_remaining = r, is_running = b,
      focus_count = 2, timer_id = i\<rparr>
     = Inr \<lparr>current_state = LONG_BREAK, time_remaining = 900, is_running = b,
             focus_count = 3, timer_id = i\<rparr>"
  "transition_to_next_state \<lparr>current_state = FOCUS, time_remaining = r, is_running = b,
      focus_count = 3, timer_id = i\<rparr>
     = Inr \<lparr>current_state = SHORT_BREAK, time_remaining = 300, is_running = b,
             focus_count = 0, timer_id = i\<rparr>"
  "transition_to_next_state \<lparr>current_state = SHORT_BREAK, time_remaining = r, is_running = b,
      focus_count = k, timer_id = i\<rparr>
     = Inr \<lparr>current_state = FOCUS, time_remaining = 1500, is_running = b,
             focus_count = k, timer_id = i\<rparr>"
  "transition_to_next_state \<lparr>current_state = LONG_BREAK, time_remaining = r, is_running = b,
      focus_count = k, timer_id = i\<rparr>
     = Inr \<lparr>current_state = FOCUS, time_remaining = 1500, is_running = b,
             focus_count = k, timer_id = i\<rparr>"
  by (simp_all add: transition_to_next_state_def get_next_state_def subscript_def Let_def)

lemma reachable_transitions:
  assumes "reachable g"
    and "timer g = \<lparr>current_state = FOCUS, time_remaining = r, is_running = b,
                     focus_count = 0, timer_id = i\<rparr>"
  shows "reachable (g\<lparr>timer := \<lparr>current_state = LONG_BREAK, time_remaining = 900,
                     is_running = b, focus_count = 3, timer_id = i\<rparr>\<rparr>)"
    and "reachable (g\<lparr>timer := \<lparr>current_state = FOCUS, time_remaining = 1500,
                     is_running = b, focus_count = 3, timer_id = i\<rparr>\<rparr>)"
proof -
  have 1: "reachable (g\<lparr>timer := \<lparr>current_state = SHORT_BREAK, time_remaining = 300,
                     is_running = b, focus_count = 1, timer_id = i\<rparr>\<rparr>)"
    using reachable_timer_call [OF assms(1), of TransitionToNext] assms(2)
    by (simp add: transition_values)
  have 2: "reachable (g\<lparr>timer := \<lparr>current_state = FOCUS, time_remaining = 1500,
                     is_running = b, focus_count = 1, timer_id = i\<rparr>\<rparr>)"
    using reachable_timer_call [OF 1, of TransitionToNext] by (simp add: transition_values)
  have 3: "reachable (g\<lparr>timer := \<lparr>current_state = SHORT_BREAK, time_remaining = 300,
                     is_running = b, focus_count = 2, timer_id = i\<rparr>\<rparr>)"
    using reachable_timer_call [OF 2, of TransitionToNext] by (simp add: transition_values)
  have 4: "reachable (g\<lparr>timer := \<lparr>current_state = FOCUS, time_remaining = 1500,
                     is_running = b, focus_count = 2, timer_id = i\<rparr>\<rparr>)"
    using reachable_timer_call [OF 3, of TransitionToNext] by (simp add: transition_values)
  show 5: "reachable (g\<lparr>timer := \<lparr>current_state = LONG_BREAK, time_remaining = 900,
                     is_running = b, focus_count = 3, timer_id = i\<rparr>\<rparr>)"
    using reachable_timer_call [OF 4, of TransitionToNext] by (simp add: transition_values)
  show "reachable (g\<lparr>timer := \<lparr>current_state = FOCUS, time_remaining = 1500,
                     is_running = b, focus_count = 3, timer_id = i\<rparr>\<rparr>)"
    using reachable_timer_call [OF 5, of TransitionToNext] by (simp add: transition_values)
qed

lemma reachable_long_break:
  "reachable
     \<lparr>timer = \<lparr>current_state = LONG_BREAK, time_remaining = 900, is_running = False,
                 focus_count = 3, timer_id = None\<rparr>,
       bg = codepoints ''#4CAF50'', state_label = codepoints ''Focus'',
       drink_label = join [10] (drink_lines 10),
       cycle_indicators = [False, False, False, False],
       start_button = NORMAL, pause_button = DISABLED, stop_button = DISABLED,
       after_count = 0\<rparr>"
  using reachable_transitions(1) [OF reachable_initial, where r = 1500 and b = False and i = None]
  by simp

lemma reachable_fourth_focus:
  "reachable
     \<lparr>timer = \<lparr>current_state = FOCUS, time_remaining = 1500, is_running = False,
                 focus_count = 3, timer_id = None\<rparr>,
       bg = codepoints ''#4CAF50'', state_label = codepoints ''Focus'',
       drink_label = join [10] (drink_lines 10),
       cycle_indicators = [False, False, False, False],
       start_button = NORMAL, pause_button = DISABLED, stop_button = DISABLED,
       after_count = 0\<rparr>"
  using reachable_transitions(2) [OF reachable_initial, where r = 1500 and b = False and i = None]
  by simp

text \<open>
  C7. The durations are the constants 1500, 300 and 900. In every state
  reached from the state that the constructor builds, by any sequence of
  \<open>tick\<close>, \<open>transition_to_next_state\<close>, \<open>reset_to_focus\<close> and the handlers
  (stop, start, pause, reset, the countdown itself), the time left lies between
  zero and the duration of the current phase and the count between 0 and 3.
\<close>

theorem reachable_within_bounds:
  assumes "reachable g"
  shows "DURATIONS FOCUS = Some 1500 \<and> DURATIONS SHORT_BREAK = Some 300
         \<and> DURATIONS LONG_BREAK = Some 900
         \<and> (\<exists>d. DURATIONS (current_state (timer g)) = Some d
                \<and> 0 \<le> time_remaining (timer g) \<and> time_remaining (timer g) \<le> d)
         \<and> 0 \<le> focus_count (timer g) \<and> focus_count (timer g) \<le> 3"
  using reachable_inv [OF assms] by (auto simp add: timer_inv_def split: option.splits)

theorem reachable_within_bounds_witness:
  "reachable
     \<lparr>timer = \<lparr>current_state = FOCUS, time_remaining = 1499, is_running = False,
                 focus_count = 0, timer_id = None\<rparr>,
       bg = codepoints ''#4CAF50'', state_label = codepoints ''Focus'',
       drink_label = join [10] (drink_lines 10),
       cycle_indicators = [False, False, False, False],
       start_button = NORMAL, pause_button = DISABLED, stop_button = DISABLED,
       after_count = 0\<rparr>
   \<and> DURATIONS FOCUS = Some 1500 \<and> (0::int) \<le> 1499 \<and> (1499::int) \<le> 1500
   \<and> (0::int) \<le> 0 \<and> (0::int) \<le> 3"
  using reachable_within_bounds [OF reachable_after_tick] reachable_after_tick by simp

subsection \<open>Where the count changes\<close>

lemma tick_frame:
  "current_state (snd (tick t)) = current_state t"
  "focus_count (snd (tick t)) = focus_count t"
  by (simp_all add: tick_def Let_def)

lemma transition_count:
  assumes "transition_to_next_state t = Inr t'" "focus_count t' \<noteq> focus_count t"
  shows "current_state t = FOCUS
         \<and> focus_count t' = (if 4 \<le> focus_count t + 1 then 0 else focus_count t + 1)"
  using assms
  by (cases "current_state t")
    (auto simp add: transition_to_next_state_def get_next_state_def Let_def subscript_def
      split: if_splits)

lemma reset_count: "reset_to_focus t = Inr t' \<Longrightarrow> focus_count t' = focus_count t"
  by (auto simp add: reset_to_focus_def subscript_def Let_def split: if_splits sum.splits option.splits)

lemma countdown_count:
  assumes inv: "timer_inv (timer g)" and c: "countdown g = Inr g'"
    and ne: "focus_count (timer g') \<noteq> focus_count (timer g)"
  shows "current_state (timer g) = FOCUS
         \<and> focus_count (timer g') =
             (if 4 \<le> focus_count (timer g) + 1 then 0 else focus_count (timer g) + 1)"
proof (cases "is_running (timer g)")
  case False
  then have "g' = g" using c by (simp add: countdown_def)
  with ne show ?thesis by simp
next
  case True
  from countdown_running [OF inv True] c obtain t'
    where t': "if fst (tick (timer g))
               then transition_to_next_state (snd (tick (timer g))) = Inr t'
               else t' = snd (tick (timer g))"
      and g': "timer g' = t'\<lparr>timer_id := Some (after_count g)\<rparr>"
    by auto
  show ?thesis
  proof (cases "fst (tick (timer g))")
    case False
    with t' g' ne show ?thesis by (simp add: tick_frame)
  next
    case True
    with t' have tr: "transition_to_next_state (snd (tick (timer g))) = Inr t'" by simp
    have "focus_count t' \<noteq> focus_count (snd (tick (timer g)))"
      using ne g' by (simp add: tick_frame)
    from transition_count [OF tr this] g' show ?thesis by (simp add: tick_frame)
  qed
qed

lemma perform_count:
  assumes inv: "timer_inv (timer g)" and p: "perform c g = Inr g'"
    and ne: "focus_count (timer g') \<noteq> focus_count (timer g)"
  shows "current_state (timer g) = FOCUS
         \<and> focus_count (timer g') =
             (if 4 \<le> focus_count (timer g) + 1 then 0 else focus_count (timer g) + 1)
         \<and> (c = TransitionToNext \<or> c = Start \<or> c = Countdown)"
proof (cases c)
  case Tick
  with p ne show ?thesis by (auto simp add: tick_frame)
next
  case TransitionToNext
  with p obtain t' where "transition_to_next_state (timer g) = Inr t'" "timer g' = t'"
    by (auto split: sum.splits)
  with transition_count [of "timer g" t'] ne TransitionToNext show ?thesis by simp
next
  case ResetToFocus
  with p obtain t' where "reset_to_focus (timer g) = Inr t'" "timer g' = t'"
    by (auto split: sum.splits)
  with reset_count [of "timer g" t'] ne show ?thesis by simp
next
  case Stop
  with p obtain g1 where u: "update_display g1 = Inr g'"
    and g1: "focus_count (timer g1) = focus_count (timer g)"
    by (auto simp add: stop_timer_def Let_def split: sum.splits)
  from update_display_frame [OF u] g1 ne show ?thesis by simp
next
  case Start
  show ?thesis
  proof (cases "is_running (timer g)")
    case True
    with p Start ne show ?thesis by (simp add: start_timer_def)
  next
    case False
    define g1 where "g1 = g\<lparr>timer := (timer g)\<lparr>is_running := True\<rparr>,
       start_button := DISABLED, pause_button := NORMAL, stop_button := NORMAL\<rparr>"
    have "countdown g1 = Inr g'" using p Start False by (simp add: start_timer_def g1_def)
    moreover have "timer_inv (timer g1)" using inv by (simp add: g1_def)
    moreover have "focus_count (timer g') \<noteq> focus_count (timer g1)" using ne by (simp add: g1_def)
    ultimately show ?thesis using countdown_count [of g1 g'] Start by (simp add: g1_def)
  qed
next
  case Pause
  with p ne show ?thesis by (auto simp add: pause_timer_def)
next
  case Reset
  with p obtain t' g1 where r: "reset_to_focus ((timer g)\<lparr>is_running := False\<rparr>) = Inr t'"
    and u: "update_display g1 = Inr g'" and g1: "timer g1 = t'"
    by (auto simp add: reset_timer_def Let_def split: sum.splits)
  from update_display_frame [OF u] g1 reset_count [OF r] ne show ?thesis by simp
next
  case Countdown
  with p countdown_count [OF inv _ ne] show ?thesis by simp
qed

text \<open>
  C8. In every reachable state in a long break the count is 3, and the display
  update fills the first three of the four indicators. The count becomes zero
  only in a call that runs \<open>transition_to_next_state\<close> out of a focus phase
  with the count at 3, which is the focus phase after the long break.
\<close>

theorem long_break_count_three:
  assumes "reachable g"
  shows "(current_state (timer g) = LONG_BREAK \<longrightarrow>
            focus_count (timer g) = 3
            \<and> (\<exists>g'. update_display g = Inr g'
                   \<and> cycle_indicators g' = [True, True, True, False]))
         \<and> (\<forall>c g'. perform c g = Inr g' \<and> focus_count (timer g) \<noteq> 0
                   \<and> focus_count (timer g') = 0 \<longrightarrow>
                 current_state (timer g) = FOCUS \<and> focus_count (timer g) = 3
                 \<and> (c = TransitionToNext \<or> c = Start \<or> c = Countdown))"
proof -
  from reachable_inv [OF assms]
  have inv: "timer_inv (timer g)" and len: "length (cycle_indicators g) = 4" by simp_all
  have A: "focus_count (timer g) = 3
           \<and> (\<exists>g'. update_display g = Inr g' \<and> cycle_indicators g' = [True, True, True, False])"
    if lb: "current_state (timer g) = LONG_BREAK"
  proof -
    have c3: "focus_count (timer g) = 3" using inv lb by (simp add: timer_inv_def)
    from update_display_Inr [OF inv] obtain g' where g': "update_display g = Inr g'" by blast
    have "[0..<4] = [0, 1, 2, 3]" by (simp add: upt_rec)
    then have "cycle_indicators g' = [True, True, True, False]"
      using update_display_frame [OF g'] len c3 by simp
    with c3 g' show ?thesis by blast
  qed
  have B: "current_state (timer g) = FOCUS \<and> focus_count (timer g) = 3
           \<and> (c = TransitionToNext \<or> c = Start \<or> c = Countdown)"
    if p: "perform c g = Inr g'" and n0: "focus_count (timer g) \<noteq> 0"
      and z: "focus_count (timer g') = 0" for c g'
  proof -
    have "focus_count (timer g') \<noteq> focus_count (timer g)" using n0 z by simp
    moreover have "0 \<le> focus_count (timer g)" "focus_count (timer g) \<le> 3"
      using inv by (simp_all add: timer_inv_def)
    ultimately show ?thesis
      using perform_count [OF inv p] z by (auto split: if_splits)
  qed
  from A B show ?thesis by blast
qed

theorem long_break_count_three_witness:
  "(\<exists>g'. update_display
           \<lparr>timer = \<lparr>current_state = LONG_BREAK, time_remaining = 900, is_running = False,
                       focus_count = 3, timer_id = None\<rparr>,
             bg = codepoints ''#4CAF50'', state_label = codepoints ''Focus'',
             drink_label = join [10] (drink_lines 10),
             cycle_indicators = [False, False, False, False],
             start_button = NORMAL, pause_button = DISABLED, stop_button = DISABLED,
             after_count = 0\<rparr> = Inr g'
         \<and> cycle_indicators g' = [True, True, True, False])
   \<and> perform TransitionToNext
         \<lparr>timer = \<lparr>current_state = FOCUS, time_remaining = 1500, is_running = False,
                     focus_count = 3, timer_id = None\<rparr>,
           bg = codepoints ''#4CAF50'', state_label = codepoints ''Focus'',
           drink_label = join [10] (drink_lines 10),
           cycle_indicators = [False, False, False, False],
           start_button = NORMAL, pause_button = DISABLED, stop_button = DISABLED,
           after_count = 0\<rparr>
       = Inr \<lparr>timer = \<lparr>current_state = SHORT_BREAK, time_remaining = 300,
                           is_running = False, focus_count = 0, timer_id = None\<rparr>,
               bg = codepoints ''#4CAF50'', state_label = codepoints ''Focus'',
               drink_label = join [10] (drink_lines 10),
               cycle_indicators = [False, False, False, False],
               start_button = NORMAL, pause_button = DISABLED, stop_button = DISABLED,
               after_count = 0\<rparr>"
  using long_break_count_three [OF reachable_long_break]
    long_break_count_three [OF reachable_fourth_focus]
  by (simp add: transition_values)

lemma replicate_unfold:
  "replicate 7 x = [x, x, x, x, x, x, x]"
  "replicate 9 x = [x, x, x, x, x, x, x, x, x]"
  "replicate 10 x = [x, x, x, x, x, x, x, x, x, x]"
  by (simp_all add: numeral_eq_Suc)

lemma floor_tenths: "\<lfloor>(1499 :: rat) / 150\<rfloor> = 9"
  by (simp add: floor_eq_iff)

lemma join_snoc:
  "join sep (xs @ [b]) = concat (map (\<lambda>x. x @ sep) xs) @ b"
  by (induction sep xs rule: join.induct) simp_all

lemma concat_replicate_snoc:
  "concat (map (\<lambda>x. x @ sep) (replicate n a)) = concat (replicate n (a @ sep))"
  by (induction n) simp_all

lemma can_literals:
  "can_top = [32, 32, 95, 95, 95, 95, 95, 95, 95, 95, 95, 95, 95, 32, 32]"
  "can_pull_tab = [32, 124, 32, 32, 95, 95, 95, 95, 95, 32, 32, 124, 32, 32]"
  "can_opening = [32, 124, 32, 124, 95, 95, 95, 95, 95, 124, 32, 124, 32, 32]"
  "can_neck = [32, 124, 32, 32, 32, 32, 32, 32, 32, 32, 32, 32, 32, 124, 32, 32]"
  "empty_part = [32, 124, 32, 32, 32, 32, 32, 32, 32, 32, 32, 32, 32, 124, 32, 32]"
  "filled_part = [32, 124, 32, 9619, 9619, 9619, 9619, 9619, 9619, 9619, 32, 124, 32, 32]"
  "can_bottom = [32, 124, 95, 95, 95, 95, 95, 95, 95, 95, 95, 95, 95, 124, 32, 32]"
  by (simp_all add: can_top_def can_pull_tab_def can_opening_def can_neck_def empty_part_def
      filled_part_def can_bottom_def codepoints_def replicate_unfold)

lemma display_text:
  assumes "0 \<le> level" "level \<le> 10"
  shows "join [10] (drink_lines level) =
           [32, 32, 95, 95, 95, 95, 95, 95, 95, 95, 95, 95, 95, 32, 32] @ [10]
           @ [32, 124, 32, 32, 95, 95, 95, 95, 95, 32, 32, 124, 32, 32] @ [10]
           @ [32, 124, 32, 124, 95, 95, 95, 95, 95, 124, 32, 124, 32, 32] @ [10]
           @ [32, 124, 32, 32, 32, 32, 32, 32, 32, 32, 32, 32, 32, 124, 32, 32] @ [10]
           @ concat (replicate (nat (10 - level)) ([32, 124, 32, 32, 32, 32, 32, 32, 32, 32, 32, 32, 32, 124, 32, 32] @ [10]))
           @ concat (replicate (nat level) ([32, 124, 32, 9619, 9619, 9619, 9619, 9619, 9619, 9619, 32, 124, 32, 32] @ [10]))
           @ [32, 124, 95, 95, 95, 95, 95, 95, 95, 95, 95, 95, 95, 124, 32, 32]"
proof -
  have "join [10] (drink_lines level) =
          concat (map (\<lambda>x. x @ [10])
            ([can_top, can_pull_tab, can_opening, can_neck]
             @ replicate (nat (10 - level)) empty_part
             @ replicate (nat level) filled_part)) @ can_bottom"
    unfolding drink_lines_bands [OF assms]
    using join_snoc [of "[10]" "[can_top, can_pull_tab, can_opening, can_neck]
             @ replicate (nat (10 - level)) empty_part
             @ replicate (nat level) filled_part" can_bottom]
    by simp
  also have "\<dots> = can_top @ [10] @ can_pull_tab @ [10] @ can_opening @ [10] @ can_neck @ [10]
           @ concat (replicate (nat (10 - level)) (empty_part @ [10]))
           @ concat (replicate (nat level) (filled_part @ [10]))
           @ can_bottom"
    by (simp add: concat_replicate_snoc del: replicate_append_same)
  finally show ?thesis by (simp only: can_literals)
qed

text \<open>
  C9. In every reachable state the fill level that the two float operations
  and the truncation compute is the floor of ten times the exact quotient of
  the time left by the duration of the phase. It is 10 exactly when the time
  left is the whole duration and 0 exactly when ten times the time left is
  below the duration. The display is the text of the can, code point by code
  point: the four lines of the top, then ten bands of which the lowest
  \<open>level\<close> hold the seven liquid glyphs and the ones above them are blank,
  then the bottom, with a newline between any two lines.
\<close>

theorem fill_level_proportional:
  assumes "reachable g"
  shows "\<exists>d level.
           DURATIONS (current_state (timer g)) = Some d
           \<and> fill_level (timer g) = Inr level
           \<and> level = \<lfloor>(of_int (time_remaining (timer g)) / of_int d :: rat) * 10\<rfloor>
           \<and> (level = 10) = (time_remaining (timer g) = d)
           \<and> (level = 0) = (10 * time_remaining (timer g) < d)
           \<and> get_energy_drink_display (timer g) =
               Inr ([32, 32, 95, 95, 95, 95, 95, 95, 95, 95, 95, 95, 95, 32, 32] @ [10]
                    @ [32, 124, 32, 32, 95, 95, 95, 95, 95, 32, 32, 124, 32, 32] @ [10]
                    @ [32, 124, 32, 124, 95, 95, 95, 95, 95, 124, 32, 124, 32, 32] @ [10]
                    @ [32, 124, 32, 32, 32, 32, 32, 32, 32, 32, 32, 32, 32, 124, 32, 32] @ [10]
                    @ concat (replicate (nat (10 - level))
                        ([32, 124, 32, 32, 32, 32, 32, 32, 32, 32, 32, 32, 32, 124, 32, 32] @ [10]))
                    @ concat (replicate (nat level)
                        ([32, 124, 32, 9619, 9619, 9619, 9619, 9619, 9619, 9619, 32, 124, 32, 32] @ [10]))
                    @ [32, 124, 95, 95, 95, 95, 95, 95, 95, 95, 95, 95, 95, 124, 32, 32])"
proof -
  define r where "r = time_remaining (timer g)"
  from reachable_inv [OF assms] have inv: "timer_inv (timer g)" by simp
  then obtain d where d: "DURATIONS (current_state (timer g)) = Some d"
    and r: "0 \<le> r" "r \<le> d"
    by (auto simp add: timer_inv_def r_def split: option.splits)
  define level where "level = (10 * r) div d"
  have dcases: "d = 1500 \<or> d = 300 \<or> d = 900" using d by (rule DURATIONS_cases)
  have fl: "fill_level (timer g) = Inr level"
    unfolding level_def r_def using d r by (intro fill_level_value) (simp_all add: r_def)
  have "(of_int r / of_int d :: rat) * 10 = of_int (10 * r) / of_int d" by simp
  then have ex: "level = \<lfloor>(of_int r / of_int d :: rat) * 10\<rfloor>"
    by (simp only: level_def floor_divide_of_int_eq)
  have full: "(level = 10) = (r = d)"
    using dcases r unfolding level_def by auto
  have empty: "(level = 0) = (10 * r < d)"
    using dcases r unfolding level_def by auto
  have range: "0 \<le> level" "level \<le> 10"
    using dcases r unfolding level_def by auto
  have "get_energy_drink_display (timer g) = Inr (join [10] (drink_lines level))"
    using fl by (simp add: get_energy_drink_display_def)
  then have disp: "get_energy_drink_display (timer g) =
               Inr ([32, 32, 95, 95, 95, 95, 95, 95, 95, 95, 95, 95, 95, 32, 32] @ [10]
                    @ [32, 124, 32, 32, 95, 95, 95, 95, 95, 32, 32, 124, 32, 32] @ [10]
                    @ [32, 124, 32, 124, 95, 95, 95, 95, 95, 124, 32, 124, 32, 32] @ [10]
                    @ [32, 124, 32, 32, 32, 32, 32, 32, 32, 32, 32, 32, 32, 124, 32, 32] @ [10]
                    @ concat (replicate (nat (10 - level))
                        ([32, 124, 32, 32, 32, 32, 32, 32, 32, 32, 32, 32, 32, 124, 32, 32] @ [10]))
                    @ concat (replicate (nat level)
                        ([32, 124, 32, 9619, 9619, 9619, 9619, 9619, 9619, 9619, 32, 124, 32, 32] @ [10]))
                    @ [32, 124, 95, 95, 95, 95, 95, 95, 95, 95, 95, 95, 95, 124, 32, 32])"
    by (simp only: display_text [OF range])
  from d fl ex full empty disp show ?thesis unfolding r_def by blast
qed

theorem fill_level_proportional_witness:
  "fill_level \<lparr>current_state = FOCUS, time_remaining = 1499, is_running = False,
                focus_count = 0, timer_id = None\<rparr> = Inr 9
   \<and> get_energy_drink_display
         \<lparr>current_state = FOCUS, time_remaining = 1499, is_running = False,
            focus_count = 0, timer_id = None\<rparr>
       = Inr
           [32, 32, 95, 95, 95, 95, 95, 95, 95, 95, 95, 95, 95, 32, 32, 10, 32, 124, 32,
            32, 95, 95, 95, 95, 95, 32, 32, 124, 32, 32, 10, 32, 124, 32, 124, 95, 95,
            95, 95, 95, 124, 32, 124, 32, 32, 10, 32, 124, 32, 32, 32, 32, 32, 32, 32,
            32, 32, 32, 32, 124, 32, 32, 10, 32, 124, 32, 32, 32, 32, 32, 32, 32, 32, 32,
            32, 32, 124, 32, 32, 10, 32, 124, 32, 9619, 9619, 9619, 9619, 9619, 9619,
            9619, 32, 124, 32, 32, 10, 32, 124, 32, 9619, 9619, 9619, 9619, 9619, 9619,
            9619, 32, 124, 32, 32, 10, 32, 124, 32, 9619, 9619, 9619, 9619, 9619, 9619,
            9619, 32, 124, 32, 32, 10, 32, 124, 32, 9619, 9619, 9619, 9619, 9619, 9619,
            9619, 32, 124, 32, 32, 10, 32, 124, 32, 9619, 9619, 9619, 9619, 9619, 9619,
            9619, 32, 124, 32, 32, 10, 32, 124, 32, 9619, 9619, 9619, 9619, 9619, 9619,
            9619, 32, 124, 32, 32, 10, 32, 124, 32, 9619, 9619, 9619, 9619, 9619, 9619,
            9619, 32, 124, 32, 32, 10, 32, 124, 32, 9619, 9619, 9619, 9619, 9619, 9619,
            9619, 32, 124, 32, 32, 10, 32, 124, 32, 9619, 9619, 9619, 9619, 9619, 9619,
            9619, 32, 124, 32, 32, 10, 32, 124, 95, 95, 95, 95, 95, 95, 95, 95, 95, 95,
            95, 124, 32, 32]
   \<and> fill_level \<lparr>current_state = LONG_BREAK, time_remaining = 900, is_running = False,
                focus_count = 3, timer_id = None\<rparr> = Inr 10
   \<and> get_energy_drink_display
         \<lparr>current_state = LONG_BREAK, time_remaining = 900, is_running = False,
            focus_count = 3, timer_id = None\<rparr>
       = Inr
           [32, 32, 95, 95, 95, 95, 95, 95, 95, 95, 95, 95, 95, 32, 32, 10, 32, 124, 32,
            32, 95, 95, 95, 95, 95, 32, 32, 124, 32, 32, 10, 32, 124, 32, 124, 95, 95,
            95, 95, 95, 124, 32, 124, 32, 32, 10, 32, 124, 32, 32, 32, 32, 32, 32, 32,
            32, 32, 32, 32, 124, 32, 32, 10, 32, 124, 32, 9619, 9619, 9619, 9619, 9619,
            9619, 9619, 32, 124, 32, 32, 10, 32, 124, 32, 9619, 9619, 9619, 9619, 9619,
            9619, 9619, 32, 124, 32, 32, 10, 32, 124, 32, 9619, 9619, 9619, 9619, 9619,
            9619, 9619, 32, 124, 32, 32, 10, 32, 124, 32, 9619, 9619, 9619, 9619, 9619,
            9619, 9619, 32, 124, 32, 32, 10, 32, 124, 32, 9619, 9619, 9619, 9619, 9619,
            9619, 9619, 32, 124, 32, 32, 10, 32, 124, 32, 9619, 9619, 9619, 9619, 9619,
            9619, 9619, 32, 124, 32, 32, 10, 32, 124, 32, 9619, 9619, 9619, 9619, 9619,
            9619, 9619, 32, 124, 32, 32, 10, 32, 124, 32, 9619, 9619, 9619, 9619, 9619,
            9619, 9619, 32, 124, 32, 32, 10, 32, 124, 32, 9619, 9619, 9619, 9619, 9619,
            9619, 9619, 32, 124, 32, 32, 10, 32, 124, 32, 9619, 9619, 9619, 9619, 9619,
            9619, 9619, 32, 124, 32, 32, 10, 32, 124, 95, 95, 95, 95, 95, 95, 95, 95, 95,
            95, 95, 124, 32, 32]"
  using fill_level_proportional [OF reachable_after_tick]
    fill_level_proportional [OF reachable_long_break]
  by (auto simp add: floor_tenths replicate_unfold)

lemma decimal_length:
  assumes "n < 100"
  shows "length (decimal n) = (if n < 10 then 1 else 2)"
proof (cases "n < 10")
  case True
  then show ?thesis by (simp add: decimal.simps)
next
  case False
  with assms have "n div 10 < 10" by simp
  then have "decimal (n div 10) = [48 + n div 10]" by (simp add: decimal.simps)
  with False show ?thesis by (subst decimal.simps) simp
qed

lemma format_02d_width:
  assumes "0 \<le> i" "i < 100"
  shows "length (format_02d i) = 2"
proof -
  have "nat i < 100" using assms by simp
  from decimal_length [OF this] assms show ?thesis
    by (simp add: format_02d_def Let_def)
qed

lemma format_time_width:
  assumes "0 \<le> time_remaining t" "time_remaining t \<le> 1500"
  shows "length (format_time t) = 5 \<and> format_time t ! 2 = 58"
proof -
  have m: "0 \<le> time_remaining t div 60" "time_remaining t div 60 < 100"
    using assms by simp_all
  have s: "0 \<le> time_remaining t mod 60" "time_remaining t mod 60 < 100"
    by simp_all
  from format_02d_width [OF m] format_02d_width [OF s]
  show ?thesis by (simp add: format_time_def Let_def codepoints_def nth_append)
qed

text \<open>
  C10. In every reachable state no operation raises. Both dictionaries have an
  entry for each of the three phases, and every duration is positive, so the
  true division has a non-zero divisor and a quotient that fits a float; the
  transition, the reset, the stop handler, the fill level and the display
  return a result, and so does every call that \<open>perform\<close> covers.
  \<open>tick\<close>, \<open>get_next_state\<close> and \<open>format_time\<close> contain no subscription, no
  division by a variable and no conversion, so their models have no error
  component to begin with; on a reachable state \<open>format_time\<close> yields the
  five characters of minutes, colon and seconds.
\<close>

theorem operations_total:
  assumes "reachable g"
  shows "(\<forall>p. \<exists>d. subscript DURATIONS p = Inr d \<and> 0 < d)
         \<and> (\<forall>p. \<exists>c. subscript COLORS p = Inr c)
         \<and> (\<exists>t'. transition_to_next_state (timer g) = Inr t')
         \<and> (\<exists>t'. reset_to_focus (timer g) = Inr t')
         \<and> (\<exists>g'. stop_timer g = Inr g')
         \<and> (\<exists>d x. subscript DURATIONS (current_state (timer g)) = Inr d \<and> d \<noteq> 0
                  \<and> int_truediv (time_remaining (timer g)) d = Inr x)
         \<and> (\<exists>level. fill_level (timer g) = Inr level)
         \<and> (\<exists>s. get_energy_drink_display (timer g) = Inr s)
         \<and> length (format_time (timer g)) = 5
         \<and> (\<forall>c. \<exists>g'. perform c g = Inr g')"
proof -
  from reachable_inv [OF assms] have inv: "timer_inv (timer g)" by simp
  have 1: "\<forall>p. \<exists>d. subscript DURATIONS p = Inr d \<and> 0 < d"
    using subscript_DURATIONS by blast
  have 2: "\<forall>p. \<exists>c. subscript COLORS p = Inr c"
    using subscript_COLORS by blast
  have 3: "\<exists>t'. transition_to_next_state (timer g) = Inr t'"
    using transition_inv [OF inv] by blast
  have 4: "\<exists>t'. reset_to_focus (timer g) = Inr t'"
    using reset_inv [OF inv] by blast
  have 5: "\<exists>g'. stop_timer g = Inr g'"
    using stop_inv [OF inv] by blast
  obtain d where d: "subscript DURATIONS (current_state (timer g)) = Inr d" "0 < d"
    using 1 by blast
  obtain level where lv: "fill_level (timer g) = Inr level"
    using timer_inv_fill_level [OF inv] by blast
  have 6: "\<exists>d x. subscript DURATIONS (current_state (timer g)) = Inr d \<and> d \<noteq> 0
                  \<and> int_truediv (time_remaining (timer g)) d = Inr x"
    using d lv by (cases "int_truediv (time_remaining (timer g)) d") (auto simp add: fill_level_def)
  have 7: "\<exists>level. fill_level (timer g) = Inr level" using lv by blast
  have 8: "\<exists>s. get_energy_drink_display (timer g) = Inr s"
    using timer_inv_display [OF inv] .
  have 9: "\<forall>c. \<exists>g'. perform c g = Inr g'"
    using perform_inv [OF inv] by blast
  have "0 \<le> time_remaining (timer g)" "time_remaining (timer g) \<le> 1500"
    using inv DURATIONS_cases [of "current_state (timer g)"]
    by (auto simp add: timer_inv_def split: option.splits)
  then have 10: "length (format_time (timer g)) = 5"
    using format_time_width by simp
  from 1 2 3 4 5 6 7 8 9 10 show ?thesis by blast
qed

theorem operations_total_witness:
  "(\<exists>t'. transition_to_next_state
            \<lparr>current_state = FOCUS, time_remaining = 1499, is_running = False,
               focus_count = 0, timer_id = None\<rparr> = Inr t')
   \<and> (\<exists>s. get_energy_drink_display
            \<lparr>current_state = FOCUS, time_remaining = 1499, is_running = False,
               focus_count = 0, timer_id = None\<rparr> = Inr s)
   \<and> format_time \<lparr>current_state = FOCUS, time_remaining = 1499, is_running = False,
                    focus_count = 0, timer_id = None\<rparr> = codepoints ''24:59''"
  using operations_total [OF reachable_after_tick]
  by (simp add: format_time_def format_02d_def decimal.simps codepoints_def Let_def)

end
